theory Spec2Isabelle
  imports Complex_Main
begin

section \<open>The Telegram service: data model\<close>

text \<open>
  The service sends one message to every configured user and then polls the bot API until
  an update from one of these users matches a callback, or the timeout elapses.

  JavaScript strings are modelled as \<open>string\<close>; one \<open>char\<close> stands for one code unit, so
  \<open>length\<close> is the source's \<open>.length\<close>.  Numbers that the source only compares, adds
  and subtracts (user ids, update ids, milliseconds) are \<open>int\<close>.

  The calls of the logger are left out: \<open>Logger.writeToLog\<close> catches what appending to the
  log file throws and \<open>loadConfig\<close> never throws, so a log call neither fails nor changes
  what the service does next.
\<close>

type_synonym user_id = int

text \<open>
  A \<open>RegExp\<close> object is represented by what the service uses of it: its \<open>source\<close> and the
  result of executing it on a string (\<open>None\<close> for \<open>null\<close>, otherwise the match array: the
  whole match followed by the capture groups).  The expressions are taken without the
  \<open>g\<close> and \<open>y\<close> flags, so that \<open>test\<close> and \<open>match\<close> have no state.
\<close>

record regexp =
  source :: string
  exec :: "string \<Rightarrow> string list option"

datatype command = Str string | Rx regexp

datatype TelegramCallbackType = InlineButton | Hidden

text \<open>The argument of a handler: \<open>string | RegExpMatchArray\<close>.\<close>

datatype match_arg = MStr string | MArr "string list"

text \<open>
  A handler is an action of the caller that may throw: \<open>Inl e\<close> is the handler throwing
  \<open>e\<close>, \<open>Inr ()\<close> its normal return.
\<close>

record TelegramCallback =
  cb_type :: TelegramCallbackType
  display :: "string option"
  command :: command
  handler :: "match_arg \<Rightarrow> string + unit"

text \<open>The fields of \<open>Config\<close> that the service reads.\<close>

record Config =
  telegramBotToken :: string
  telegramUserIds :: "user_id list"
  telegramTimeoutMs :: int
  telegramPollIntervalMs :: int

text \<open>The updates of the bot API, with the optional fields the service tests.\<close>

record callback_query =
  cq_id :: string
  cq_from :: user_id
  cq_data :: "string option"

record message =
  msg_from :: user_id
  msg_text :: "string option"

record update =
  update_id :: "int option"
  callback_query :: "callback_query option"
  message :: "message option"

datatype button = Button (button_text: string) (callback_data: string)

subsection \<open>The outside world\<close>

text \<open>
  Every call that leaves the service, every handler invocation and every wait is recorded
  in a trace, in the order in which the service performs them.  \<open>GetUpdates\<close> carries the
  offset (absent for the priming call); its \<open>timeout\<close> argument is always \<open>0\<close>.
  \<open>Handler\<close> carries the identifier of the callback query the handler is invoked for
  (\<open>None\<close> for a text message), the position of the callback in the list and the argument
  of the handler.
\<close>

datatype effect =
    GetMe string
  | SendMessage user_id string "button list list option"
  | GetUpdates "int option"
  | AnswerCallbackQuery string "string option"
  | Handler "string option" nat match_arg
  | Sleep int

text \<open>
  The world is the wall clock (\<open>Date.now()\<close>, in milliseconds) and the trace.
\<close>

record world =
  clock :: int
  trace :: "effect list"

text \<open>
  The environment is a parameter: the bot API and the timer.  Each operation of the bot API
  sees the trace so far and its arguments, and answers with the time that passes until the
  service goes on (milliseconds) and its result; \<open>Inl e\<close> is the call rejecting with \<open>e\<close>.
  \<open>setTimeout\<close> fires after at least the delay it is given; \<open>timerLag\<close> says by how much
  later the service goes on after a wait.

  The clock is read when \<open>startTime\<close> is taken and at the top of every iteration of the
  poll loop, and nowhere else.  Between two readings there is a call of the bot API or a
  wait, so the time that the awaited log calls and a handler take is part of the time of
  the calls and of the lag of the wait around them.
\<close>

record backend =
  getMe :: "effect list \<Rightarrow> string \<Rightarrow> nat \<times> (string + unit)"
  sendMessage ::
    "effect list \<Rightarrow> user_id \<Rightarrow> string \<Rightarrow> button list list option \<Rightarrow> nat \<times> (string + unit)"
  getUpdates :: "effect list \<Rightarrow> int option \<Rightarrow> nat \<times> (string + update list)"
  answerCallbackQuery ::
    "effect list \<Rightarrow> string \<Rightarrow> string option \<Rightarrow> nat \<times> (string + unit)"
  timerLag :: "effect list \<Rightarrow> nat"

text \<open>Performing an effect that takes \<open>lat\<close> milliseconds.\<close>

definition perform :: "effect \<Rightarrow> nat \<Rightarrow> world \<Rightarrow> world" where
  "perform ev lat w = \<lparr>clock = clock w + int lat, trace = trace w @ [ev]\<rparr>"

text \<open>
  \<open>await new Promise((resolve) => setTimeout(resolve, ms))\<close>: the service goes on after
  \<open>ms\<close> milliseconds or later.
\<close>

definition wait :: "backend \<Rightarrow> int \<Rightarrow> world \<Rightarrow> world" where
  "wait bk ms w = perform (Sleep ms) (nat ms + timerLag bk (trace w)) w"

text \<open>
  The errors \<open>sendTelegramMessage\<close> rejects with: the message-length error (with the
  length and the maximum of its text), the invalid-token error of \<open>initializeBot\<close>, the
  rethrown error of a failed \<open>sendMessage\<close>, and \<open>timeout waiting for response\<close>.
\<close>

datatype error =
    MessageTooLong nat nat
  | InvalidBotToken string
  | DeliveryError string
  | TimeoutError

section \<open>The Telegram service: operations\<close>

definition TELEGRAM_MAX_LENGTH :: nat where
  "TELEGRAM_MAX_LENGTH = 4096"

definition validateMessageLength :: "string \<Rightarrow> error + unit" where
  "validateMessageLength msg =
     (if length msg > TELEGRAM_MAX_LENGTH
      then Inl (MessageTooLong (length msg) TELEGRAM_MAX_LENGTH)
      else Inr ())"

text \<open>
  \<open>initializeBot\<close>: the bot object is constructed from the token (taken to succeed) and
  the token is checked with \<open>getMe\<close>, whose failure becomes the invalid-token error.
\<close>

definition initializeBot :: "backend \<Rightarrow> string \<Rightarrow> world \<Rightarrow> (error + unit) \<times> world" where
  "initializeBot bk botToken w =
     (case getMe bk (trace w) botToken of
        (lat, r) \<Rightarrow>
          (case r of Inl e \<Rightarrow> Inl (InvalidBotToken e) | Inr u \<Rightarrow> Inr (),
           perform (GetMe botToken) lat w))"

text \<open>The inline keyboard: one button per \<open>inline-button\<close> callback, in order.\<close>

definition inlineKeyboard :: "TelegramCallback list \<Rightarrow> button list" where
  "inlineKeyboard callbacks =
     map (\<lambda>cb. Button (case display cb of Some d \<Rightarrow> d | None \<Rightarrow> [])
                      (case command cb of Str s \<Rightarrow> s | Rx r \<Rightarrow> source r))
       (filter (\<lambda>cb. cb_type cb = InlineButton) callbacks)"

definition reply_markup :: "TelegramCallback list \<Rightarrow> button list list option" where
  "reply_markup callbacks =
     (if length (inlineKeyboard callbacks) > 0 then Some [inlineKeyboard callbacks] else None)"

text \<open>The send loop: the first failing delivery is rethrown.\<close>

fun sendAll ::
  "backend \<Rightarrow> string \<Rightarrow> button list list option \<Rightarrow> user_id list \<Rightarrow> world
    \<Rightarrow> (error + unit) \<times> world" where
  "sendAll bk textToSend kb [] w = (Inr (), w)"
| "sendAll bk textToSend kb (userId # rest) w =
     (case sendMessage bk (trace w) userId textToSend kb of
        (lat, r) \<Rightarrow>
          (case r of
             Inl e \<Rightarrow> (Inl (DeliveryError e), perform (SendMessage userId textToSend kb) lat w)
           | Inr u \<Rightarrow> sendAll bk textToSend kb rest
                        (perform (SendMessage userId textToSend kb) lat w)))"

text \<open>
  Clearing the pending updates: the identifier of the last update of the answer, and \<open>0\<close>
  when the answer is empty, the identifier is undefined or the call fails.
\<close>

definition clearOldUpdates :: "backend \<Rightarrow> world \<Rightarrow> int \<times> world" where
  "clearOldUpdates bk w =
     (case getUpdates bk (trace w) None of
        (lat, r) \<Rightarrow>
          (case r of
             Inl e \<Rightarrow> 0
           | Inr oldUpdates \<Rightarrow>
               (if length oldUpdates > 0
                then (case update_id (last oldUpdates) of Some i \<Rightarrow> i | None \<Rightarrow> 0)
                else 0),
           perform (GetUpdates None) lat w))"

subsection \<open>Matching\<close>

text \<open>\<open>cb.command === s\<close> for a string, \<open>cb.command.test(s)\<close> for an expression.\<close>

definition matches :: "command \<Rightarrow> string \<Rightarrow> bool" where
  "matches c s = (case c of Str p \<Rightarrow> p = s | Rx r \<Rightarrow> exec r s \<noteq> None)"

text \<open>
  The handler's argument \<open>match || s\<close>, where \<open>match\<close> is \<open>s\<close> for a string command and
  \<open>s.match(cb.command)\<close> for an expression.
\<close>

definition match_result :: "command \<Rightarrow> string \<Rightarrow> match_arg" where
  "match_result c s =
     (case c of
        Str p \<Rightarrow> MStr s
      | Rx r \<Rightarrow> (case exec r s of Some groups \<Rightarrow> MArr groups | None \<Rightarrow> MStr s))"

text \<open>\<open>callbacks.find\<close>: the first callback that satisfies the test, with its position.\<close>

definition find_callback ::
  "(TelegramCallback \<Rightarrow> bool) \<Rightarrow> TelegramCallback list \<Rightarrow> (nat \<times> TelegramCallback) option" where
  "find_callback P callbacks = find (\<lambda>(i, cb). P cb) (enumerate 0 callbacks)"

subsection \<open>One update\<close>

text \<open>
  How the body of the \<open>for\<close> loop ends for one update: it goes on with the next update,
  it returns from \<open>sendTelegramMessage\<close>, or it throws (into the \<open>catch\<close> of the poll).
  \<open>Fallthrough\<close> is the end of the callback-query branch that reaches the text branch.
\<close>

datatype outcome = Continue | Fallthrough | Return string | Throw string

text \<open>
  The text of the acknowledgement of a matched button: a check mark and \<open>Received\<close>.  The
  check mark is written as the three bytes of its UTF-8 form; nothing depends on this text.
\<close>

definition received :: string where
  "received = [CHR 0xE2, CHR 0x9C, CHR 0x93] @ '' Received''"

definition handleCallbackQuery ::
  "backend \<Rightarrow> TelegramCallback list \<Rightarrow> user_id set \<Rightarrow> callback_query \<Rightarrow> world
    \<Rightarrow> outcome \<times> world" where
  "handleCallbackQuery bk callbacks userIdSet query w =
     (if cq_from query \<notin> userIdSet then (Continue, w)
      else case cq_data query of
        None \<Rightarrow> (Continue, w)
      | Some callbackData \<Rightarrow>
          if callbackData = [] then (Continue, w)
          else
            (case find_callback
                    (\<lambda>cb. cb_type cb = InlineButton \<and> matches (command cb) callbackData)
                    callbacks of
               Some (i, matchedCallback) \<Rightarrow>
                 (case answerCallbackQuery bk (trace w) (cq_id query) (Some received) of
                    (lat, r) \<Rightarrow>
                      (case r of
                         Inl e \<Rightarrow>
                           (Throw e,
                            perform (AnswerCallbackQuery (cq_id query) (Some received)) lat w)
                       | Inr u \<Rightarrow>
                           (case handler matchedCallback
                                   (match_result (command matchedCallback) callbackData) of
                              Inl e \<Rightarrow> Throw e
                            | Inr u \<Rightarrow> Return callbackData,
                            perform
                              (Handler (Some (cq_id query)) i
                                 (match_result (command matchedCallback) callbackData)) 0
                              (perform (AnswerCallbackQuery (cq_id query) (Some received))
                                 lat w))))
             | None \<Rightarrow>
                 (case answerCallbackQuery bk (trace w) (cq_id query) None of
                    (lat, r) \<Rightarrow>
                      (case r of Inl e \<Rightarrow> Throw e | Inr u \<Rightarrow> Fallthrough,
                       perform (AnswerCallbackQuery (cq_id query) None) lat w))))"

definition handleMessage ::
  "TelegramCallback list \<Rightarrow> user_id set \<Rightarrow> message \<Rightarrow> world \<Rightarrow> outcome \<times> world" where
  "handleMessage callbacks userIdSet msg w =
     (case msg_text msg of
        None \<Rightarrow> (Continue, w)
      | Some txt \<Rightarrow>
          if txt = [] then (Continue, w)
          else if msg_from msg \<notin> userIdSet then (Continue, w)
          else
            (case find_callback (\<lambda>cb. matches (command cb) txt) callbacks of
               Some (i, matchedCallback) \<Rightarrow>
                 (case handler matchedCallback (match_result (command matchedCallback) txt) of
                    Inl e \<Rightarrow> Throw e
                  | Inr u \<Rightarrow> Return txt,
                  perform (Handler None i (match_result (command matchedCallback) txt)) 0 w)
             | None \<Rightarrow> (Continue, w)))"

text \<open>The body of the \<open>for\<close> loop after the update identifier has been recorded.\<close>

definition processUpdate ::
  "backend \<Rightarrow> TelegramCallback list \<Rightarrow> user_id set \<Rightarrow> update \<Rightarrow> world \<Rightarrow> outcome \<times> world" where
  "processUpdate bk callbacks userIdSet upd w =
     (case (case callback_query upd of
              Some query \<Rightarrow> handleCallbackQuery bk callbacks userIdSet query w
            | None \<Rightarrow> (Fallthrough, w)) of
        (Fallthrough, w1) \<Rightarrow>
          (case message upd of
             Some msg \<Rightarrow> handleMessage callbacks userIdSet msg w1
           | None \<Rightarrow> (Continue, w1))
      | (r, w1) \<Rightarrow> (r, w1))"

text \<open>
  The \<open>for\<close> loop over one batch.  \<open>lastUpdateId\<close> is assigned before the update is
  looked at, and keeps its value when the loop is left by \<open>return\<close> or by an exception.
\<close>

fun processUpdates ::
  "backend \<Rightarrow> TelegramCallback list \<Rightarrow> user_id set \<Rightarrow> update list \<Rightarrow> int \<Rightarrow> world
    \<Rightarrow> outcome \<times> int \<times> world" where
  "processUpdates bk callbacks userIdSet [] lastUpdateId w = (Continue, lastUpdateId, w)"
| "processUpdates bk callbacks userIdSet (upd # rest) lastUpdateId w =
     (case processUpdate bk callbacks userIdSet upd w of
        (Continue, w1) \<Rightarrow>
          processUpdates bk callbacks userIdSet rest
            (case update_id upd of Some i \<Rightarrow> i | None \<Rightarrow> lastUpdateId) w1
      | (Fallthrough, w1) \<Rightarrow>
          processUpdates bk callbacks userIdSet rest
            (case update_id upd of Some i \<Rightarrow> i | None \<Rightarrow> lastUpdateId) w1
      | (r, w1) \<Rightarrow> (r, case update_id upd of Some i \<Rightarrow> i | None \<Rightarrow> lastUpdateId, w1))"

subsection \<open>The poll loop\<close>

text \<open>The check at the top of every iteration.\<close>

definition timedOut :: "Config \<Rightarrow> int \<Rightarrow> world \<Rightarrow> bool" where
  "timedOut config startTime w =
     (telegramTimeoutMs config > 0 \<and> clock w - startTime \<ge> telegramTimeoutMs config)"

text \<open>
  One iteration after the check: the \<open>try\<close> block and, unless the block returned, the
  wait of at least the poll interval.  An exception of \<open>getUpdates\<close>, of an
  acknowledgement or of a handler is caught (and logged); the iteration then waits like one
  that found nothing.
\<close>

definition pollOnce ::
  "backend \<Rightarrow> TelegramCallback list \<Rightarrow> Config \<Rightarrow> int \<Rightarrow> int \<Rightarrow> world
    \<Rightarrow> string option \<times> int \<times> world" where
  "pollOnce bk callbacks config pollIntervalMs lastUpdateId w =
     (case getUpdates bk (trace w) (Some (lastUpdateId + 1)) of
        (lat, r) \<Rightarrow>
          (case r of
             Inl e \<Rightarrow>
               (None, lastUpdateId,
                wait bk pollIntervalMs
                  (perform (GetUpdates (Some (lastUpdateId + 1))) lat w))
           | Inr updates \<Rightarrow>
               (case processUpdates bk callbacks (set (telegramUserIds config)) updates
                       lastUpdateId (perform (GetUpdates (Some (lastUpdateId + 1))) lat w) of
                  (Return v, lastUpdateId', w') \<Rightarrow> (Some v, lastUpdateId', w')
                | (r, lastUpdateId', w') \<Rightarrow>
                    (None, lastUpdateId', wait bk pollIntervalMs w'))))"

text \<open>
  \<open>while (true)\<close>: the loop has no bound of its own, so it is a partial function, and
  \<open>None\<close> is the loop that never ends.
\<close>

partial_function (option) pollLoop ::
  "backend \<Rightarrow> TelegramCallback list \<Rightarrow> Config \<Rightarrow> int \<Rightarrow> int \<Rightarrow> int \<Rightarrow> world
    \<Rightarrow> ((error + string) \<times> world) option" where
  "pollLoop bk callbacks config pollIntervalMs startTime lastUpdateId w =
     (if timedOut config startTime w then Some (Inl TimeoutError, w)
      else
        (case pollOnce bk callbacks config pollIntervalMs lastUpdateId w of
           (Some v, lastUpdateId', w') \<Rightarrow> Some (Inr v, w')
         | (None, lastUpdateId', w') \<Rightarrow>
             pollLoop bk callbacks config pollIntervalMs startTime lastUpdateId' w'))"

definition sendTelegramMessage ::
  "backend \<Rightarrow> string \<Rightarrow> TelegramCallback list \<Rightarrow> Config \<Rightarrow> world
    \<Rightarrow> ((error + string) \<times> world) option" where
  "sendTelegramMessage bk textToSend callbacks config w =
     (case validateMessageLength textToSend of
        Inl e \<Rightarrow> Some (Inl e, w)
      | Inr u \<Rightarrow>
          (case initializeBot bk (telegramBotToken config) w of
             (Inl e, w1) \<Rightarrow> Some (Inl e, w1)
           | (Inr u, w1) \<Rightarrow>
               (case sendAll bk textToSend (reply_markup callbacks)
                       (telegramUserIds config) w1 of
                  (Inl e, w2) \<Rightarrow> Some (Inl e, w2)
                | (Inr u, w2) \<Rightarrow>
                    (case clearOldUpdates bk w2 of
                       (lastUpdateId, w3) \<Rightarrow>
                         pollLoop bk callbacks config
                           (max (telegramPollIntervalMs config) 1000) (clock w2)
                           lastUpdateId w3))))"


section \<open>The configuration loader\<close>

text \<open>
  \<open>loadConfig\<close> returns what \<open>JSON.parse\<close> gives for the text of \<open>./config.json\<close>, cast
  to \<open>Config\<close> without a check of its shape beyond two fields.  Its result is therefore
  modelled as a JSON value; \<open>DEFAULT_CONFIG\<close> is the object of the defaults.
\<close>

datatype json =
    JNull
  | JBool bool
  | JNum rat
  | JStr string
  | JArr "json list"
  | JObj "(string \<times> json) list"

text \<open>
  What the \<open>try\<close> block of the loader can throw.
\<close>

datatype js_error = IOError | SyntaxError | TypeError | InvalidConfig

text \<open>
  JavaScript's truthiness of a property value; \<open>None\<close> is \<open>undefined\<close>.
\<close>

definition truthy :: "json option \<Rightarrow> bool" where
  "truthy v =
     (case v of
        None \<Rightarrow> False
      | Some JNull \<Rightarrow> False
      | Some (JBool b) \<Rightarrow> b
      | Some (JNum n) \<Rightarrow> n \<noteq> 0
      | Some (JStr s) \<Rightarrow> s \<noteq> []
      | Some (JArr xs) \<Rightarrow> True
      | Some (JObj kvs) \<Rightarrow> True)"

text \<open>
  Reading \<open>config.logLevel\<close> or \<open>config.logFile\<close>: a \<open>TypeError\<close> on \<open>null\<close>, the
  property of an object, \<open>undefined\<close> on every other value.  (The parser is taken to give
  each key of an object once.)
\<close>

definition get_field :: "json \<Rightarrow> string \<Rightarrow> js_error + json option" where
  "get_field v k =
     (case v of
        JNull \<Rightarrow> Inl TypeError
      | JObj kvs \<Rightarrow> Inr (map_of kvs k)
      | _ \<Rightarrow> Inr None)"

text \<open>
  The state of \<open>./config.json\<close> as the loader meets it: \<open>file.exists()\<close> rejects, the
  file is absent, \<open>file.text()\<close> rejects, or the file has a text.
\<close>

datatype file_state = ExistsFails | Absent | ReadFails | Content string

definition DEFAULT_CONFIG :: json where
  "DEFAULT_CONFIG =
     JObj [(''logLevel'', JStr ''info''),
           (''logFile'', JStr ''./logs.log''),
           (''telegramEnabled'', JBool False),
           (''telegramBotToken'', JStr []),
           (''telegramUserIds'', JArr []),
           (''telegramTimeoutMs'', JNum 600000),
           (''telegramPollIntervalMs'', JNum 10000),
           (''permissionHookEnabled'', JBool False),
           (''permissionHookToolsAutoApproved'', JArr []),
           (''permissionHookTimeoutMs'', JNum 600000),
           (''permissionHookAllowOnTimeout'', JBool False)]"

text \<open>
  The \<open>try\<close> block: \<open>Inr\<close> is the value it caches and returns, \<open>Inl\<close> what it throws.
  \<open>JSON.parse\<close> is a parameter; \<open>None\<close> is its \<open>SyntaxError\<close>.
\<close>

definition readConfig :: "(string \<Rightarrow> json option) \<Rightarrow> file_state \<Rightarrow> js_error + json" where
  "readConfig JSON_parse disk =
     (case disk of
        ExistsFails \<Rightarrow> Inl IOError
      | Absent \<Rightarrow> Inr DEFAULT_CONFIG
      | ReadFails \<Rightarrow> Inl IOError
      | Content txt \<Rightarrow>
          (case JSON_parse txt of
             None \<Rightarrow> Inl SyntaxError
           | Some config \<Rightarrow>
               (case get_field config ''logLevel'' of
                  Inl e \<Rightarrow> Inl e
                | Inr logLevel \<Rightarrow>
                    if \<not> truthy logLevel then Inl InvalidConfig
                    else
                      (case get_field config ''logFile'' of
                         Inl e \<Rightarrow> Inl e
                       | Inr logFile \<Rightarrow>
                           if \<not> truthy logFile then Inl InvalidConfig else Inr config))))"

text \<open>
  \<open>loadConfig\<close> with the module variable \<open>cachedConfig\<close> passed in and returned.  The
  \<open>catch\<close> block turns every exception into a copy of the defaults.
\<close>

definition loadConfig ::
  "(string \<Rightarrow> json option) \<Rightarrow> file_state \<Rightarrow> json option \<Rightarrow> json \<times> json option" where
  "loadConfig JSON_parse disk cachedConfig =
     (case (if truthy cachedConfig then cachedConfig else None) of
        Some cached \<Rightarrow> (cached, cachedConfig)
      | None \<Rightarrow>
          (case readConfig JSON_parse disk of
             Inr config \<Rightarrow> (config, Some config)
           | Inl e \<Rightarrow> (DEFAULT_CONFIG, Some DEFAULT_CONFIG)))"

definition clearConfigCache :: "json option \<Rightarrow> json option" where
  "clearConfigCache cachedConfig = None"

section \<open>Notions used in the properties\<close>

text \<open>
  The origin of an update is the sender of its callback query, or of its message when it
  has no callback query.  The update is unauthorized when its origin is not a configured
  user.
\<close>

definition unauthorized :: "user_id set \<Rightarrow> update \<Rightarrow> bool" where
  "unauthorized userIdSet upd =
     (case callback_query upd of
        Some q \<Rightarrow> cq_from q \<notin> userIdSet
      | None \<Rightarrow> (case message upd of Some m \<Rightarrow> msg_from m \<notin> userIdSet | None \<Rightarrow> False))"

text \<open>
  An update matches when it is an activation or a text of a configured user that some
  callback accepts (an inline button for an activation, any callback for a text).
\<close>

definition matching :: "TelegramCallback list \<Rightarrow> user_id set \<Rightarrow> update \<Rightarrow> bool" where
  "matching callbacks userIdSet upd =
     ((case callback_query upd of
         Some q \<Rightarrow>
           cq_from q \<in> userIdSet \<and>
           (case cq_data q of
              Some d \<Rightarrow> list_ex (\<lambda>cb. cb_type cb = InlineButton \<and> matches (command cb) d) callbacks
            | None \<Rightarrow> False)
       | None \<Rightarrow> False) \<or>
      (case message upd of
         Some m \<Rightarrow>
           msg_from m \<in> userIdSet \<and>
           (case msg_text m of
              Some t \<Rightarrow> list_ex (\<lambda>cb. matches (command cb) t) callbacks
            | None \<Rightarrow> False)
       | None \<Rightarrow> False))"

text \<open>
  A bot API that never answers \<open>getUpdates\<close> with a matching update.
\<close>

definition never_matches :: "backend \<Rightarrow> TelegramCallback list \<Rightarrow> user_id set \<Rightarrow> bool" where
  "never_matches bk callbacks userIdSet =
     (\<forall>h off lat updates. getUpdates bk h off = (lat, Inr updates) \<longrightarrow>
        (\<forall>upd\<in>set updates. \<not> matching callbacks userIdSet upd))"

text \<open>
  \<open>v\<close> is, unchanged, the data of a callback query or the text of a message of a
  configured user in the update.
\<close>

definition raw_payload :: "user_id set \<Rightarrow> update \<Rightarrow> string \<Rightarrow> bool" where
  "raw_payload userIdSet upd v =
     ((case callback_query upd of
         Some q \<Rightarrow> cq_from q \<in> userIdSet \<and> cq_data q = Some v
       | None \<Rightarrow> False) \<or>
      (case message upd of
         Some m \<Rightarrow> msg_from m \<in> userIdSet \<and> msg_text m = Some v
       | None \<Rightarrow> False))"

text \<open>
  The bot API answered some poll with an update whose raw payload is \<open>v\<close>.
\<close>

definition delivered :: "backend \<Rightarrow> user_id set \<Rightarrow> string \<Rightarrow> bool" where
  "delivered bk userIdSet v =
     (\<exists>h off lat updates upd. getUpdates bk h (Some off) = (lat, Inr updates) \<and>
        upd \<in> set updates \<and> raw_payload userIdSet upd v)"

text \<open>
  The last effect of the world is the invocation of the handler of a callback that
  accepts \<open>v\<close>, with the match of that callback on \<open>v\<close> as argument, and the handler
  returned.
\<close>

definition handler_ran_last :: "TelegramCallback list \<Rightarrow> string \<Rightarrow> world \<Rightarrow> bool" where
  "handler_ran_last callbacks v w =
     (\<exists>pre src i. i < length callbacks \<and> matches (command (callbacks ! i)) v \<and>
        handler (callbacks ! i) (match_result (command (callbacks ! i)) v) = Inr () \<and>
        trace w = pre @ [Handler src i (match_result (command (callbacks ! i)) v)])"

text \<open>
  A trace is acknowledged first when every invocation of a handler for a callback query
  comes directly after the acknowledgement of that query with the text \<open>received\<close>.
  \<open>acked_from prev\<close> checks a part of a trace that follows the effect \<open>prev\<close>.
\<close>

fun acked_from :: "effect option \<Rightarrow> effect list \<Rightarrow> bool" where
  "acked_from prev [] = True"
| "acked_from prev (ev # evs) =
     ((case ev of
         Handler (Some qid) i a \<Rightarrow> prev = Some (AnswerCallbackQuery qid (Some received))
       | _ \<Rightarrow> True) \<and>
      acked_from (Some ev) evs)"

definition acknowledged_first :: "effect list \<Rightarrow> bool" where
  "acknowledged_first tr = acked_from None tr"

text \<open>
  The highest identifier among the updates of a batch (\<open>0\<close> when none has one): the
  baseline in the words of the specification, to be compared with \<open>clearOldUpdates\<close>.
\<close>

definition highest_update_id :: "update list \<Rightarrow> int" where
  "highest_update_id updates =
     (case List.map_filter update_id updates of [] \<Rightarrow> 0 | i # ids \<Rightarrow> fold max ids i)"

section \<open>Example inputs\<close>

text \<open>
  Handlers, callbacks and updates of the examples.
\<close>

definition ok_handler :: "match_arg \<Rightarrow> string + unit" where
  "ok_handler m = Inr ()"

definition failing_handler :: "match_arg \<Rightarrow> string + unit" where
  "failing_handler m = Inl ''handler failed''"

definition button_cb :: "string \<Rightarrow> (match_arg \<Rightarrow> string + unit) \<Rightarrow> TelegramCallback" where
  "button_cb c h = \<lparr>cb_type = InlineButton, display = Some ''Yes'', command = Str c, handler = h\<rparr>"

definition hidden_cb :: "command \<Rightarrow> (match_arg \<Rightarrow> string + unit) \<Rightarrow> TelegramCallback" where
  "hidden_cb c h = \<lparr>cb_type = Hidden, display = None, command = c, handler = h\<rparr>"

definition activation :: "int \<Rightarrow> user_id \<Rightarrow> string \<Rightarrow> update" where
  "activation i u d =
     \<lparr>update_id = Some i,
      callback_query = Some \<lparr>cq_id = ''q'', cq_from = u, cq_data = Some d\<rparr>,
      message = None\<rparr>"

definition text_message :: "int \<Rightarrow> user_id \<Rightarrow> string \<Rightarrow> update" where
  "text_message i u t =
     \<lparr>update_id = Some i, callback_query = None,
      message = Some \<lparr>msg_from = u, msg_text = Some t\<rparr>\<rparr>"

definition overlapping :: "TelegramCallback list" where
  "overlapping = [hidden_cb (Str ''/x'') ok_handler, button_cb ''/x'' ok_handler]"

text \<open>
  The expression \<open>/^\/block\s+(.+)$/\<close>, executed: the string starts with \<open>/block\<close>, then
  white space, then at least one character up to the end, none of them a line terminator.
  The white space is matched greedily, so the group is what follows it, or the last
  white-space character when nothing follows.
\<close>

definition is_space :: "char \<Rightarrow> bool" where
  "is_space c = (c \<in> set [CHR '' '', CHR 0x09, CHR 0x0A, CHR 0x0B, CHR 0x0C, CHR 0x0D, CHR 0xA0])"

definition is_line_terminator :: "char \<Rightarrow> bool" where
  "is_line_terminator c = (c = CHR 0x0A \<or> c = CHR 0x0D)"

definition block_exec :: "string \<Rightarrow> string list option" where
  "block_exec s =
     (if take 6 s = ''/block'' then
        (if takeWhile is_space (drop 6 s) = [] then None
         else if dropWhile is_space (drop 6 s) \<noteq> [] then
           (if list_ex is_line_terminator (dropWhile is_space (drop 6 s)) then None
            else Some [s, dropWhile is_space (drop 6 s)])
         else if 2 \<le> length (drop 6 s) \<and> \<not> is_line_terminator (last s) then Some [s, [last s]]
         else None)
      else None)"

definition block_rx :: regexp where
  "block_rx = \<lparr>source = ''^'' @ [CHR 0x5C] @ ''/block'' @ [CHR 0x5C] @ ''s+(.+)$'', exec = block_exec\<rparr>"

text \<open>
  A bot API that accepts the token, delivers every message and acknowledges every callback
  query at once, answers \<open>getUpdates\<close> after \<open>lat\<close> milliseconds as a script of the
  trace and the offset says, and whose timer has no lag.
\<close>

definition scripted_backend ::
  "nat \<Rightarrow> (effect list \<Rightarrow> int option \<Rightarrow> string + update list) \<Rightarrow> backend" where
  "scripted_backend lat script =
     \<lparr>getMe = (\<lambda>h t. (0, Inr ())),
      sendMessage = (\<lambda>h u t k. (0, Inr ())),
      getUpdates = (\<lambda>h off. (lat, script h off)),
      answerCallbackQuery = (\<lambda>h q t. (0, Inr ())),
      timerLag = (\<lambda>h. 0)\<rparr>"

definition no_updates :: "effect list \<Rightarrow> int option \<Rightarrow> string + update list" where
  "no_updates h off = Inr []"

definition is_poll :: "effect \<Rightarrow> bool" where
  "is_poll ev = (case ev of GetUpdates (Some off) \<Rightarrow> True | _ \<Rightarrow> False)"

text \<open>
  The script that answers the poll number \<open>n\<close> (from \<open>0\<close>) with the given updates.
\<close>

definition on_poll :: "nat \<Rightarrow> update list \<Rightarrow> effect list \<Rightarrow> int option \<Rightarrow> string + update list" where
  "on_poll n updates h off =
     (if off \<noteq> None \<and> length (filter is_poll h) = n then Inr updates else Inr [])"

text \<open>
  Scripts whose pending queue at priming holds two old updates.
\<close>

definition unordered :: "effect list \<Rightarrow> int option \<Rightarrow> string + update list" where
  "unordered h off =
     (if off = None then Inr [activation 5 99 ''/old'', activation 3 99 ''/older''] else Inr [])"

definition ordered :: "effect list \<Rightarrow> int option \<Rightarrow> string + update list" where
  "ordered h off =
     (if off = None then Inr [activation 3 99 ''/older'', activation 5 99 ''/old''] else Inr [])"

definition example_config :: "int \<Rightarrow> int \<Rightarrow> Config" where
  "example_config D p =
     \<lparr>telegramBotToken = ''token'', telegramUserIds = [42],
      telegramTimeoutMs = D, telegramPollIntervalMs = p\<rparr>"

definition w0 :: world where
  "w0 = \<lparr>clock = 0, trace = []\<rparr>"

definition after_priming :: world where
  "after_priming =
     \<lparr>clock = 0,
      trace = [GetMe ''token'',
        SendMessage 42 ''Approve?'' (Some [[Button ''Yes'' ''/yes-123'']]),
        GetUpdates None]\<rparr>"

text \<open>
  A stand-in for \<open>JSON.parse\<close> on three texts.
\<close>

definition toy_parse :: "string \<Rightarrow> json option" where
  "toy_parse s =
     (if s = ''null'' then Some JNull
      else if s = ''{}'' then Some (JObj [])
      else if s = ''{logLevel: debug, logFile: x.log}''
        then Some (JObj [(''logLevel'', JStr ''debug''), (''logFile'', JStr ''x.log'')])
      else None)"

section \<open>Properties of the Telegram service\<close>

subsection \<open>Auxiliary facts\<close>

lemma clock_perform [simp]: "clock (perform ev lat w) = clock w + int lat"
  by (simp add: perform_def)

lemma trace_perform [simp]: "trace (perform ev lat w) = trace w @ [ev]"
  by (simp add: perform_def)

lemma clock_wait: "clock w + ms \<le> clock (wait bk ms w)"
  by (simp add: wait_def)

lemma find_enumerate_first:
  "i < length xs \<Longrightarrow> P (xs ! i) \<Longrightarrow> (\<forall>j<i. \<not> P (xs ! j)) \<Longrightarrow>
   find (\<lambda>(k, x). P x) (enumerate n xs) = Some (n + i, xs ! i)"
proof (induction xs arbitrary: i n)
  case Nil
  then show ?case by simp
next
  case (Cons x xs)
  show ?case
  proof (cases i)
    case 0
    with Cons.prems show ?thesis by simp
  next
    case (Suc k)
    with Cons.prems have nx: "\<not> P x" by auto
    from Suc Cons.prems have "k < length xs" "P (xs ! k)" "\<forall>j<k. \<not> P (xs ! j)" by auto
    from Cons.IH [OF this, of "Suc n"] nx Suc show ?thesis by simp
  qed
qed

lemma find_callback_first:
  "i < length cbs \<Longrightarrow> P (cbs ! i) \<Longrightarrow> (\<forall>j<i. \<not> P (cbs ! j)) \<Longrightarrow>
   find_callback P cbs = Some (i, cbs ! i)"
  using find_enumerate_first [of i cbs P 0] by (simp add: find_callback_def)

lemma find_enumerate_None:
  "(\<forall>x\<in>set xs. \<not> P x) \<Longrightarrow> find (\<lambda>(k, x). P x) (enumerate n xs) = None"
  by (induction xs arbitrary: n) auto

lemma find_callback_None:
  "(\<forall>cb\<in>set cbs. \<not> P cb) \<Longrightarrow> find_callback P cbs = None"
  by (simp add: find_callback_def find_enumerate_None)

lemma find_enumerate_index:
  "find (\<lambda>(k, x). P x) (enumerate n xs) = Some (m, y) \<Longrightarrow>
   n \<le> m \<and> m - n < length xs \<and> y = xs ! (m - n) \<and> P y"
proof (induction xs arbitrary: n)
  case Nil
  then show ?case by simp
next
  case (Cons x xs)
  show ?case
  proof (cases "P x")
    case True
    with Cons.prems show ?thesis by simp
  next
    case False
    with Cons.prems have "find (\<lambda>(k, x). P x) (enumerate (Suc n) xs) = Some (m, y)" by simp
    from Cons.IH [OF this] have ih: "Suc n \<le> m" "m - Suc n < length xs"
      "y = xs ! (m - Suc n)" "P y" by blast+
    from ih(1) have "m - n = Suc (m - Suc n)" by simp
    with ih show ?thesis by simp
  qed
qed

lemma find_callback_index:
  "find_callback P cbs = Some (i, cb) \<Longrightarrow> i < length cbs \<and> cb = cbs ! i \<and> P cb"
  using find_enumerate_index [of P 0 cbs i cb] by (auto simp: find_callback_def)

lemma processUpdates_append:
  "processUpdates bk callbacks userIdSet pre lastUpdateId w = (Continue, l1, w1) \<Longrightarrow>
   processUpdates bk callbacks userIdSet (pre @ rest) lastUpdateId w =
     processUpdates bk callbacks userIdSet rest l1 w1"
proof (induction pre arbitrary: lastUpdateId w)
  case Nil
  then show ?case by simp
next
  case (Cons upd pre)
  obtain r w2 where pu: "processUpdate bk callbacks userIdSet upd w = (r, w2)"
    by (cases "processUpdate bk callbacks userIdSet upd w")
  with Cons show ?case
    by (cases r) simp_all
qed

lemma pollLoop_caught:
  assumes "\<not> timedOut config startTime w"
    and "getUpdates bk (trace w) (Some (lastUpdateId + 1)) = (lat, Inr updates)"
    and "processUpdates bk callbacks (set (telegramUserIds config)) updates lastUpdateId
           (perform (GetUpdates (Some (lastUpdateId + 1))) lat w) = (Throw e, l', w')"
  shows "pollLoop bk callbacks config p startTime lastUpdateId w =
           pollLoop bk callbacks config p startTime l' (wait bk p w')"
  using assms by (subst pollLoop.simps) (simp add: pollOnce_def)

subsection \<open>Handler failures\<close>

text \<open>
  C1, as the code has it: when an event of a configured user matches a callback and the
  handler of that callback throws, the exception is caught by the \<open>catch\<close> of the poll
  iteration.  No payload is returned for the event: the rest of the batch is skipped, the
  loop waits for the poll interval and polls again, with \<open>lastUpdateId\<close> at the event (so the
  event is not fetched again).  For an activation the acknowledgement has been sent before
  the handler ran and is not sent again.  The earlier updates \<open>pre\<close> of the batch are
  those that the loop went through without returning or throwing.
\<close>

theorem handler_failure_is_caught:
  assumes "\<not> timedOut config startTime w"
    and "getUpdates bk (trace w) (Some (lastUpdateId + 1)) = (lat, Inr (pre @ upd # rest))"
    and "processUpdates bk callbacks (set (telegramUserIds config)) pre lastUpdateId
           (perform (GetUpdates (Some (lastUpdateId + 1))) lat w) = (Continue, l1, w1)"
    and "handler cb (match_result (command cb) payload) = Inl e"
  shows
   "(callback_query upd = Some query \<and> cq_from query \<in> set (telegramUserIds config) \<and>
     cq_data query = Some payload \<and> payload \<noteq> [] \<and>
     find_callback (\<lambda>cb. cb_type cb = InlineButton \<and> matches (command cb) payload) callbacks =
       Some (i, cb) \<and>
     answerCallbackQuery bk (trace w1) (cq_id query) (Some received) = (alat, Inr ()) \<longrightarrow>
     pollLoop bk callbacks config p startTime lastUpdateId w =
       pollLoop bk callbacks config p startTime
         (case update_id upd of Some u \<Rightarrow> u | None \<Rightarrow> l1)
         (wait bk p
            (perform (Handler (Some (cq_id query)) i (match_result (command cb) payload)) 0
               (perform (AnswerCallbackQuery (cq_id query) (Some received)) alat w1)))) \<and>
    (callback_query upd = None \<and> message upd = Some msg \<and>
     msg_from msg \<in> set (telegramUserIds config) \<and>
     msg_text msg = Some payload \<and> payload \<noteq> [] \<and>
     find_callback (\<lambda>cb. matches (command cb) payload) callbacks = Some (i, cb) \<longrightarrow>
     pollLoop bk callbacks config p startTime lastUpdateId w =
       pollLoop bk callbacks config p startTime
         (case update_id upd of Some u \<Rightarrow> u | None \<Rightarrow> l1)
         (wait bk p
            (perform (Handler None i (match_result (command cb) payload)) 0 w1)))"
proof -
  note split = processUpdates_append [OF assms(3), of "upd # rest"]
  show ?thesis
  proof (intro conjI impI)
    assume a: "callback_query upd = Some query \<and> cq_from query \<in> set (telegramUserIds config) \<and>
     cq_data query = Some payload \<and> payload \<noteq> [] \<and>
     find_callback (\<lambda>cb. cb_type cb = InlineButton \<and> matches (command cb) payload) callbacks =
       Some (i, cb) \<and>
     answerCallbackQuery bk (trace w1) (cq_id query) (Some received) = (alat, Inr ())"
    with assms(4) have "processUpdates bk callbacks (set (telegramUserIds config)) (upd # rest) l1 w1 =
        (Throw e, case update_id upd of Some u \<Rightarrow> u | None \<Rightarrow> l1,
         perform (Handler (Some (cq_id query)) i (match_result (command cb) payload)) 0
               (perform (AnswerCallbackQuery (cq_id query) (Some received)) alat w1))"
      by (simp add: processUpdate_def handleCallbackQuery_def)
    with split pollLoop_caught [OF assms(1,2)]
    show "pollLoop bk callbacks config p startTime lastUpdateId w =
       pollLoop bk callbacks config p startTime
         (case update_id upd of Some u \<Rightarrow> u | None \<Rightarrow> l1)
         (wait bk p
            (perform (Handler (Some (cq_id query)) i (match_result (command cb) payload)) 0
               (perform (AnswerCallbackQuery (cq_id query) (Some received)) alat w1)))"
      by simp
  next
    assume a: "callback_query upd = None \<and> message upd = Some msg \<and>
     msg_from msg \<in> set (telegramUserIds config) \<and>
     msg_text msg = Some payload \<and> payload \<noteq> [] \<and>
     find_callback (\<lambda>cb. matches (command cb) payload) callbacks = Some (i, cb)"
    with assms(4) have "processUpdates bk callbacks (set (telegramUserIds config)) (upd # rest) l1 w1 =
        (Throw e, case update_id upd of Some u \<Rightarrow> u | None \<Rightarrow> l1,
         perform (Handler None i (match_result (command cb) payload)) 0 w1)"
      by (simp add: processUpdate_def handleMessage_def)
    with split pollLoop_caught [OF assms(1,2)]
    show "pollLoop bk callbacks config p startTime lastUpdateId w =
       pollLoop bk callbacks config p startTime
         (case update_id upd of Some u \<Rightarrow> u | None \<Rightarrow> l1)
         (wait bk p
            (perform (Handler None i (match_result (command cb) payload)) 0 w1))"
      by simp
  qed
qed

text \<open>
  An instance: the only button is pressed by user 42 and its handler throws; the first
  iteration of the loop ends in the wait, not in a result.
\<close>

theorem handler_failure_is_caught_witness:
  "pollLoop (scripted_backend 0 (on_poll 0 [activation 7 42 ''/yes-123'']))
     [button_cb ''/yes-123'' failing_handler] (example_config 1000 1000) 1000 0 0 after_priming =
   pollLoop (scripted_backend 0 (on_poll 0 [activation 7 42 ''/yes-123'']))
     [button_cb ''/yes-123'' failing_handler] (example_config 1000 1000) 1000 0 7
     \<lparr>clock = 1000,
      trace = trace after_priming @
        [GetUpdates (Some 1), AnswerCallbackQuery ''q'' (Some received),
         Handler (Some ''q'') 0 (MStr ''/yes-123''), Sleep 1000]\<rparr>"
  using handler_failure_is_caught [of "example_config 1000 1000" 0 after_priming
      "scripted_backend 0 (on_poll 0 [activation 7 42 ''/yes-123''])" 0 0 "[]"
      "activation 7 42 ''/yes-123''" "[]" "[button_cb ''/yes-123'' failing_handler]" 0
      "perform (GetUpdates (Some 1)) 0 after_priming"
      "button_cb ''/yes-123'' failing_handler" "''/yes-123''" "''handler failed''"
      "\<lparr>cq_id = ''q'', cq_from = 42, cq_data = Some ''/yes-123''\<rparr>" 0 0 1000 "\<lparr>msg_from = 42, msg_text = None\<rparr>"]
  by (simp add: timedOut_def find_callback_def matches_def match_result_def wait_def
        button_cb_def failing_handler_def activation_def on_poll_def is_poll_def
        scripted_backend_def example_config_def after_priming_def perform_def)

text \<open>
  C1 as stated fails: with a timeout of one second, the exchange of the instance above
  does not resolve with the payload \<open>/yes-123\<close>; it ends with the timeout error, after
  the acknowledgement, the handler and one wait.
\<close>

theorem failing_handler_ends_in_timeout:
  "sendTelegramMessage (scripted_backend 0 (on_poll 0 [activation 7 42 ''/yes-123'']))
     ''Approve?'' [button_cb ''/yes-123'' failing_handler] (example_config 1000 1000) w0 =
     Some (Inl TimeoutError,
       \<lparr>clock = 1000,
        trace = [GetMe ''token'',
          SendMessage 42 ''Approve?'' (Some [[Button ''Yes'' ''/yes-123'']]),
          GetUpdates None, GetUpdates (Some 1),
          AnswerCallbackQuery ''q'' (Some received),
          Handler (Some ''q'') 0 (MStr ''/yes-123''),
          Sleep 1000]\<rparr>)"
  by (simp add: sendTelegramMessage_def validateMessageLength_def TELEGRAM_MAX_LENGTH_def
        initializeBot_def reply_markup_def inlineKeyboard_def clearOldUpdates_def
        pollLoop.simps pollOnce_def wait_def timedOut_def processUpdate_def handleCallbackQuery_def
        find_callback_def matches_def match_result_def
        button_cb_def failing_handler_def activation_def on_poll_def is_poll_def
        scripted_backend_def example_config_def w0_def perform_def)

subsection \<open>The length check\<close>

text \<open>
  C2: a text longer than 4096 units makes \<open>sendTelegramMessage\<close> fail at once with the
  message-length error; the world is returned as it was, so the trace has no call of the
  bot API (no \<open>getMe\<close>, no \<open>sendMessage\<close>, no \<open>getUpdates\<close>) added to it.
\<close>

theorem too_long_fails_without_calls:
  assumes "length textToSend > 4096"
  shows "sendTelegramMessage bk textToSend callbacks config w =
           Some (Inl (MessageTooLong (length textToSend) 4096), w)"
  using assms
  by (simp add: sendTelegramMessage_def validateMessageLength_def TELEGRAM_MAX_LENGTH_def)

theorem too_long_fails_without_calls_witness:
  "length (replicate 4097 CHR ''a'') > 4096 \<and>
   sendTelegramMessage (scripted_backend 0 no_updates) (replicate 4097 CHR ''a'')
     [button_cb ''/yes-123'' ok_handler] (example_config 5000 1000) w0 =
     Some (Inl (MessageTooLong 4097 4096), w0) \<and>
   trace w0 = []"
  using too_long_fails_without_calls [of "replicate 4097 CHR ''a''" "scripted_backend 0 no_updates"
      "[button_cb ''/yes-123'' ok_handler]" "example_config 5000 1000" w0]
  by (simp add: w0_def)

subsection \<open>The timeout\<close>

lemma handleCallbackQuery_no_return:
  assumes "\<not> matching callbacks userIdSet upd" and "callback_query upd = Some query"
  shows "fst (handleCallbackQuery bk callbacks userIdSet query w) \<noteq> Return v"
proof -
  have "find_callback (\<lambda>cb. cb_type cb = InlineButton \<and> matches (command cb) d) callbacks = None"
    if "cq_from query \<in> userIdSet" "cq_data query = Some d" for d
    using assms that by (intro find_callback_None) (auto simp: matching_def list_ex_iff)
  then show ?thesis
    by (auto simp: handleCallbackQuery_def split: option.splits prod.splits sum.splits)
qed

lemma handleMessage_no_return:
  assumes "\<not> matching callbacks userIdSet upd" and "message upd = Some msg"
  shows "fst (handleMessage callbacks userIdSet msg w) \<noteq> Return v"
proof -
  have "find_callback (\<lambda>cb. matches (command cb) t) callbacks = None"
    if "msg_from msg \<in> userIdSet" "msg_text msg = Some t" for t
    using assms that by (intro find_callback_None) (auto simp: matching_def list_ex_iff)
  then show ?thesis
    by (auto simp: handleMessage_def split: option.splits)
qed

lemma processUpdate_no_return:
  assumes "\<not> matching callbacks userIdSet upd"
  shows "fst (processUpdate bk callbacks userIdSet upd w) \<noteq> Return v"
  using handleCallbackQuery_no_return [OF assms] handleMessage_no_return [OF assms]
  by (auto simp: processUpdate_def split: option.splits prod.splits outcome.splits)
     (metis fst_conv)+

lemma processUpdates_no_return:
  assumes "\<forall>upd\<in>set updates. \<not> matching callbacks userIdSet upd"
  shows "fst (processUpdates bk callbacks userIdSet updates lastUpdateId w) \<noteq> Return v"
  using assms
proof (induction updates arbitrary: lastUpdateId w)
  case Nil
  then show ?case by simp
next
  case (Cons upd rest)
  from Cons.prems have nm: "\<not> matching callbacks userIdSet upd" by simp
  from Cons.prems have rest: "\<forall>upd\<in>set rest. \<not> matching callbacks userIdSet upd" by simp
  obtain r w1 where pu: "processUpdate bk callbacks userIdSet upd w = (r, w1)"
    by (cases "processUpdate bk callbacks userIdSet upd w")
  with processUpdate_no_return [OF nm, of bk w] have "r \<noteq> Return v" by simp
  with pu Cons.IH [OF rest] show ?case
    by (cases r) simp_all
qed

lemma clock_handleCallbackQuery:
  "clock w \<le> clock (snd (handleCallbackQuery bk callbacks userIdSet query w))"
  by (auto simp: handleCallbackQuery_def split: option.splits prod.splits sum.splits)

lemma clock_handleMessage:
  "clock (snd (handleMessage callbacks userIdSet msg w)) = clock w"
  by (auto simp: handleMessage_def split: option.splits prod.splits sum.splits)

lemma clock_processUpdate:
  "clock w \<le> clock (snd (processUpdate bk callbacks userIdSet upd w))"
proof (cases "callback_query upd")
  case None
  then show ?thesis
    by (simp add: processUpdate_def clock_handleMessage split: option.splits)
next
  case (Some query)
  obtain r w1 where h: "handleCallbackQuery bk callbacks userIdSet query w = (r, w1)"
    by (cases "handleCallbackQuery bk callbacks userIdSet query w")
  with clock_handleCallbackQuery [of w bk callbacks userIdSet query] have "clock w \<le> clock w1"
    by simp
  with Some h show ?thesis
    by (cases r) (simp_all add: processUpdate_def clock_handleMessage split: option.splits)
qed

lemma clock_processUpdates:
  "clock w \<le> clock (snd (snd (processUpdates bk callbacks userIdSet updates lastUpdateId w)))"
proof (induction updates arbitrary: lastUpdateId w)
  case Nil
  then show ?case by simp
next
  case (Cons upd rest)
  obtain r w1 where pu: "processUpdate bk callbacks userIdSet upd w = (r, w1)"
    by (cases "processUpdate bk callbacks userIdSet upd w")
  with clock_processUpdate [of w bk callbacks userIdSet upd] have le: "clock w \<le> clock w1"
    by simp
  show ?case
    using pu le Cons.IH [of w1] order_trans [OF le]
    by (cases r) (simp_all)
qed

lemma pollOnce_quiet:
  assumes "never_matches bk callbacks (set (telegramUserIds config))" and "0 \<le> p"
  shows "\<exists>l' w'. pollOnce bk callbacks config p lastUpdateId w = (None, l', w') \<and>
           clock w + p \<le> clock w'"
proof -
  obtain lat r where g: "getUpdates bk (trace w) (Some (lastUpdateId + 1)) = (lat, r)"
    by (cases "getUpdates bk (trace w) (Some (lastUpdateId + 1))")
  let ?w1 = "perform (GetUpdates (Some (lastUpdateId + 1))) lat w"
  have later: "clock w + p \<le> clock (wait bk p w2)" if "clock w \<le> clock w2" for w2
    using that clock_wait [of w2 p bk] by simp
  show ?thesis
  proof (cases r)
    case (Inl e)
    with g later [of ?w1] show ?thesis by (simp add: pollOnce_def)
  next
    case (Inr updates)
    from assms(1) g Inr
    have quiet: "\<forall>upd\<in>set updates. \<not> matching callbacks (set (telegramUserIds config)) upd"
      unfolding never_matches_def by blast
    obtain r' l' w' where pu:
      "processUpdates bk callbacks (set (telegramUserIds config)) updates lastUpdateId ?w1 =
         (r', l', w')"
      by (cases "processUpdates bk callbacks (set (telegramUserIds config)) updates
            lastUpdateId ?w1")
    from processUpdates_no_return [OF quiet, of bk lastUpdateId ?w1] pu
    have nr: "\<And>v. r' \<noteq> Return v" by simp
    from clock_processUpdates [of ?w1 bk callbacks "set (telegramUserIds config)" updates
        lastUpdateId] pu
    have "clock w \<le> clock w'" by simp
    from later [OF this] g Inr pu nr show ?thesis
      by (cases r') (auto simp: pollOnce_def)
  qed
qed

lemma pollLoop_times_out:
  assumes D: "0 < telegramTimeoutMs config" and p: "0 < p"
    and quiet: "never_matches bk callbacks (set (telegramUserIds config))"
  shows "\<exists>w'. pollLoop bk callbacks config p startTime lastUpdateId w =
             Some (Inl TimeoutError, w') \<and>
           telegramTimeoutMs config \<le> clock w' - startTime \<and>
           (w' = w \<or>
            (\<exists>l1 wp l2. clock wp - startTime < telegramTimeoutMs config \<and>
               pollOnce bk callbacks config p l1 wp = (None, l2, w') \<and>
               clock wp + p \<le> clock w'))"
proof (induction "nat (telegramTimeoutMs config - (clock w - startTime))"
    arbitrary: lastUpdateId w rule: less_induct)
  case less
  show ?case
  proof (cases "timedOut config startTime w")
    case True
    then have "pollLoop bk callbacks config p startTime lastUpdateId w = Some (Inl TimeoutError, w)"
      by (subst pollLoop.simps) simp
    with True show ?thesis by (simp add: timedOut_def)
  next
    case False
    from pollOnce_quiet [OF quiet, of p lastUpdateId w] p obtain l' w1 where
      po: "pollOnce bk callbacks config p lastUpdateId w = (None, l', w1)"
      and cl: "clock w + p \<le> clock w1" by auto
    from False D have before: "clock w - startTime < telegramTimeoutMs config"
      by (simp add: timedOut_def)
    with cl p have "nat (telegramTimeoutMs config - (clock w1 - startTime))
        < nat (telegramTimeoutMs config - (clock w - startTime))" by simp
    from less [OF this, of l'] obtain w' where rec:
      "pollLoop bk callbacks config p startTime l' w1 = Some (Inl TimeoutError, w')"
      "telegramTimeoutMs config \<le> clock w' - startTime"
      "w' = w1 \<or>
       (\<exists>l1 wp l2. clock wp - startTime < telegramTimeoutMs config \<and>
          pollOnce bk callbacks config p l1 wp = (None, l2, w') \<and>
          clock wp + p \<le> clock w')" by blast
    have step: "pollLoop bk callbacks config p startTime lastUpdateId w =
        pollLoop bk callbacks config p startTime l' w1"
      using False po by (subst pollLoop.simps) simp
    from rec(3) before po cl
    have "\<exists>l1 wp l2. clock wp - startTime < telegramTimeoutMs config \<and>
          pollOnce bk callbacks config p l1 wp = (None, l2, w') \<and>
          clock wp + p \<le> clock w'"
      by blast
    with step rec(1,2) show ?thesis by simp
  qed
qed

text \<open>
  C3, as the code has it.  Let the timeout \<open>D\<close> be positive, let the text pass the length
  check, the token be accepted and every delivery succeed (\<open>w2\<close> is the world after the
  last delivery, whose clock is \<open>startTime\<close>), and let the bot API never answer with a
  matching update.  Then the poll loop ends and \<open>sendTelegramMessage\<close> fails with the
  timeout error, at the first check at which the elapsed time has reached \<open>D\<close>: the
  elapsed time at the failure is at least \<open>D\<close>, and the failure comes either at the first
  check, right after priming, or at the end of an iteration that began at an elapsed time
  below \<open>D\<close> and lasted at least the poll interval (with its floor of one second).  How
  far the elapsed time goes beyond \<open>D\<close> is the matter of that last iteration, whose fetch,
  acknowledgements and wait take the time they take: the interval is no bound for it, as
  the second example below shows.  The comparison is made at the top of an iteration: a
  loop entered after the deadline fails at once, with the world as it is, so before any
  fetch.
\<close>

theorem timeout_when_nothing_matches:
  assumes "0 < telegramTimeoutMs config"
    and "length textToSend \<le> 4096"
    and "initializeBot bk (telegramBotToken config) w = (Inr (), w1)"
    and "sendAll bk textToSend (reply_markup callbacks) (telegramUserIds config) w1 = (Inr (), w2)"
    and "never_matches bk callbacks (set (telegramUserIds config))"
  shows "(\<forall>startTime lastUpdateId ws. timedOut config startTime ws \<longrightarrow>
            pollLoop bk callbacks config (max (telegramPollIntervalMs config) 1000) startTime
              lastUpdateId ws = Some (Inl TimeoutError, ws)) \<and>
         (\<exists>w'. sendTelegramMessage bk textToSend callbacks config w = Some (Inl TimeoutError, w') \<and>
           telegramTimeoutMs config \<le> clock w' - clock w2 \<and>
           (w' = snd (clearOldUpdates bk w2) \<or>
            (\<exists>l1 wp l2. clock wp - clock w2 < telegramTimeoutMs config \<and>
               pollOnce bk callbacks config (max (telegramPollIntervalMs config) 1000) l1 wp =
                 (None, l2, w') \<and>
               clock wp + max (telegramPollIntervalMs config) 1000 \<le> clock w')))"
proof -
  have top: "pollLoop bk callbacks config (max (telegramPollIntervalMs config) 1000) startTime
      lastUpdateId ws = Some (Inl TimeoutError, ws)"
    if "timedOut config startTime ws" for startTime lastUpdateId ws
    using that by (subst pollLoop.simps) simp
  obtain l0 w3 where prime: "clearOldUpdates bk w2 = (l0, w3)"
    by (cases "clearOldUpdates bk w2")
  have run: "sendTelegramMessage bk textToSend callbacks config w =
      pollLoop bk callbacks config (max (telegramPollIntervalMs config) 1000) (clock w2) l0 w3"
    using assms(2,3,4) prime
    by (simp add: sendTelegramMessage_def validateMessageLength_def TELEGRAM_MAX_LENGTH_def)
  have "0 < max (telegramPollIntervalMs config) 1000" by simp
  from pollLoop_times_out [OF assms(1) this assms(5), of "clock w2" l0 w3] run prime
  have "\<exists>w'. sendTelegramMessage bk textToSend callbacks config w = Some (Inl TimeoutError, w') \<and>
           telegramTimeoutMs config \<le> clock w' - clock w2 \<and>
           (w' = snd (clearOldUpdates bk w2) \<or>
            (\<exists>l1 wp l2. clock wp - clock w2 < telegramTimeoutMs config \<and>
               pollOnce bk callbacks config (max (telegramPollIntervalMs config) 1000) l1 wp =
                 (None, l2, w') \<and>
               clock wp + max (telegramPollIntervalMs config) 1000 \<le> clock w'))"
    by auto
  with top show ?thesis by blast
qed

text \<open>
  An instance: timeout 2500 ms, configured interval 500 ms (so 1000 ms), a bot API that
  answers at once with no updates and a timer without lag.  The checks are at 0, 1000,
  2000 and 3000 ms.
\<close>

theorem timeout_when_nothing_matches_witness:
  "never_matches (scripted_backend 0 no_updates) [] {42} \<and>
   sendTelegramMessage (scripted_backend 0 no_updates) ''Approve?'' [] (example_config 2500 500) w0 =
     Some (Inl TimeoutError,
       \<lparr>clock = 3000,
        trace = [GetMe ''token'', SendMessage 42 ''Approve?'' None, GetUpdates None,
          GetUpdates (Some 1), Sleep 1000, GetUpdates (Some 1), Sleep 1000,
          GetUpdates (Some 1), Sleep 1000]\<rparr>)"
proof -
  have init: "initializeBot (scripted_backend 0 no_updates)
      (telegramBotToken (example_config 2500 500)) w0 =
      (Inr (), \<lparr>clock = 0, trace = [GetMe ''token'']\<rparr>)"
    by (simp add: initializeBot_def scripted_backend_def example_config_def w0_def perform_def)
  have sent: "sendAll (scripted_backend 0 no_updates) ''Approve?'' (reply_markup [])
      (telegramUserIds (example_config 2500 500)) \<lparr>clock = 0, trace = [GetMe ''token'']\<rparr> =
      (Inr (), \<lparr>clock = 0, trace = [GetMe ''token'', SendMessage 42 ''Approve?'' None]\<rparr>)"
    by (simp add: reply_markup_def inlineKeyboard_def scripted_backend_def example_config_def
        perform_def)
  have quiet: "never_matches (scripted_backend 0 no_updates) []
      (set (telegramUserIds (example_config 2500 500)))"
    by (simp add: never_matches_def scripted_backend_def no_updates_def)
  from timeout_when_nothing_matches [OF _ _ init sent quiet]
  obtain w' where "sendTelegramMessage (scripted_backend 0 no_updates) ''Approve?'' []
      (example_config 2500 500) w0 = Some (Inl TimeoutError, w')"
      "2500 \<le> clock w'"
    by (auto simp: example_config_def)
  moreover have "sendTelegramMessage (scripted_backend 0 no_updates) ''Approve?'' []
      (example_config 2500 500) w0 =
     Some (Inl TimeoutError,
       \<lparr>clock = 3000,
        trace = [GetMe ''token'', SendMessage 42 ''Approve?'' None, GetUpdates None,
          GetUpdates (Some 1), Sleep 1000, GetUpdates (Some 1), Sleep 1000,
          GetUpdates (Some 1), Sleep 1000]\<rparr>)"
    by (simp add: sendTelegramMessage_def validateMessageLength_def TELEGRAM_MAX_LENGTH_def
        initializeBot_def reply_markup_def inlineKeyboard_def clearOldUpdates_def
        pollLoop.simps pollOnce_def wait_def timedOut_def
        scripted_backend_def no_updates_def example_config_def w0_def perform_def)
  ultimately show ?thesis using quiet by (simp add: example_config_def)
qed

text \<open>
  C3 as stated fails: when every \<open>getUpdates\<close> takes 500 ms, with timeout and interval
  of 1000 ms and a timer without lag, the first check is at 500 ms and the second at
  2000 ms, which is not below timeout plus interval.  (\<open>startTime\<close> is \<open>0\<close>, the clock
  after the delivery.)
\<close>

theorem slow_fetch_overshoots:
  "never_matches (scripted_backend 500 no_updates) [] {42} \<and>
   sendAll (scripted_backend 500 no_updates) ''Approve?'' None [42]
     \<lparr>clock = 0, trace = [GetMe ''token'']\<rparr> =
     (Inr (), \<lparr>clock = 0, trace = [GetMe ''token'', SendMessage 42 ''Approve?'' None]\<rparr>) \<and>
   sendTelegramMessage (scripted_backend 500 no_updates) ''Approve?'' []
     (example_config 1000 1000) w0 =
     Some (Inl TimeoutError,
       \<lparr>clock = 2000,
        trace = [GetMe ''token'', SendMessage 42 ''Approve?'' None, GetUpdates None,
          GetUpdates (Some 1), Sleep 1000]\<rparr>) \<and>
   \<not> (2000 - 0 < telegramTimeoutMs (example_config 1000 1000) +
         max (telegramPollIntervalMs (example_config 1000 1000)) 1000)"
  by (simp add: sendTelegramMessage_def validateMessageLength_def TELEGRAM_MAX_LENGTH_def
        initializeBot_def reply_markup_def inlineKeyboard_def clearOldUpdates_def
        pollLoop.simps pollOnce_def wait_def timedOut_def never_matches_def
        scripted_backend_def no_updates_def example_config_def w0_def perform_def)

subsection \<open>Which callback is selected\<close>

text \<open>
  C4, as the code has it.  For a text of a configured user, the callback selected is the
  first one in the list whose command accepts the text.  For an activation of a configured
  user with a non-empty payload, it is the first \<open>inline-button\<close> callback whose command
  accepts the payload: a \<open>hidden\<close> callback is passed over even when its command accepts
  the payload and it stands earlier.  The handler of the selected callback is invoked with
  the match of its own command (for an activation after the acknowledgement), and when it
  returns the raw input is the result; an overlap of commands raises nothing.
\<close>

theorem first_eligible_command_selected:
  "(msg_from msg \<in> userIdSet \<and> msg_text msg = Some txt \<and> txt \<noteq> [] \<and>
    i < length callbacks \<and> matches (command (callbacks ! i)) txt \<and>
    (\<forall>j<i. \<not> matches (command (callbacks ! j)) txt) \<longrightarrow>
    handleMessage callbacks userIdSet msg w =
      (case handler (callbacks ! i) (match_result (command (callbacks ! i)) txt) of
         Inl e \<Rightarrow> Throw e
       | Inr u \<Rightarrow> Return txt,
       perform (Handler None i (match_result (command (callbacks ! i)) txt)) 0 w)) \<and>
   (cq_from query \<in> userIdSet \<and> cq_data query = Some callbackData \<and> callbackData \<noteq> [] \<and>
    k < length callbacks \<and>
    cb_type (callbacks ! k) = InlineButton \<and> matches (command (callbacks ! k)) callbackData \<and>
    (\<forall>j<k. \<not> (cb_type (callbacks ! j) = InlineButton \<and>
                matches (command (callbacks ! j)) callbackData)) \<and>
    answerCallbackQuery bk (trace w) (cq_id query) (Some received) = (lat, Inr ()) \<longrightarrow>
    handleCallbackQuery bk callbacks userIdSet query w =
      (case handler (callbacks ! k) (match_result (command (callbacks ! k)) callbackData) of
         Inl e \<Rightarrow> Throw e
       | Inr u \<Rightarrow> Return callbackData,
       perform (Handler (Some (cq_id query)) k
                  (match_result (command (callbacks ! k)) callbackData)) 0
         (perform (AnswerCallbackQuery (cq_id query) (Some received)) lat w)))"
proof (intro conjI impI)
  assume a: "msg_from msg \<in> userIdSet \<and> msg_text msg = Some txt \<and> txt \<noteq> [] \<and>
    i < length callbacks \<and> matches (command (callbacks ! i)) txt \<and>
    (\<forall>j<i. \<not> matches (command (callbacks ! j)) txt)"
  then have "find_callback (\<lambda>cb. matches (command cb) txt) callbacks = Some (i, callbacks ! i)"
    by (intro find_callback_first) auto
  with a show "handleMessage callbacks userIdSet msg w =
      (case handler (callbacks ! i) (match_result (command (callbacks ! i)) txt) of
         Inl e \<Rightarrow> Throw e
       | Inr u \<Rightarrow> Return txt,
       perform (Handler None i (match_result (command (callbacks ! i)) txt)) 0 w)"
    by (simp add: handleMessage_def)
next
  assume a: "cq_from query \<in> userIdSet \<and> cq_data query = Some callbackData \<and> callbackData \<noteq> [] \<and>
    k < length callbacks \<and>
    cb_type (callbacks ! k) = InlineButton \<and> matches (command (callbacks ! k)) callbackData \<and>
    (\<forall>j<k. \<not> (cb_type (callbacks ! j) = InlineButton \<and>
                matches (command (callbacks ! j)) callbackData)) \<and>
    answerCallbackQuery bk (trace w) (cq_id query) (Some received) = (lat, Inr ())"
  then have "find_callback (\<lambda>cb. cb_type cb = InlineButton \<and> matches (command cb) callbackData)
      callbacks = Some (k, callbacks ! k)"
    by (intro find_callback_first) auto
  with a show "handleCallbackQuery bk callbacks userIdSet query w =
      (case handler (callbacks ! k) (match_result (command (callbacks ! k)) callbackData) of
         Inl e \<Rightarrow> Throw e
       | Inr u \<Rightarrow> Return callbackData,
       perform (Handler (Some (cq_id query)) k
                  (match_result (command (callbacks ! k)) callbackData)) 0
         (perform (AnswerCallbackQuery (cq_id query) (Some received)) lat w))"
    by (simp add: handleCallbackQuery_def)
qed

text \<open>
  An instance: a hidden and a button callback with the same command.  The text selects
  the callback at position 0, the activation the one at position 1.
\<close>

theorem first_eligible_command_selected_witness:
  "handleMessage overlapping {42} \<lparr>msg_from = 42, msg_text = Some ''/x''\<rparr> w0 =
     (Return ''/x'', \<lparr>clock = 0, trace = [Handler None 0 (MStr ''/x'')]\<rparr>) \<and>
   handleCallbackQuery (scripted_backend 0 no_updates) overlapping {42}
     \<lparr>cq_id = ''q'', cq_from = 42, cq_data = Some ''/x''\<rparr> w0 =
     (Return ''/x'',
      \<lparr>clock = 0,
       trace = [AnswerCallbackQuery ''q'' (Some received),
          Handler (Some ''q'') 1 (MStr ''/x'')]\<rparr>)"
  using first_eligible_command_selected [of "\<lparr>msg_from = 42, msg_text = Some ''/x''\<rparr>" "{42}"
      "''/x''" 0 overlapping w0 "\<lparr>cq_id = ''q'', cq_from = 42, cq_data = Some ''/x''\<rparr>" "''/x''" 1
      "scripted_backend 0 no_updates" 0]
  by (simp add: overlapping_def hidden_cb_def button_cb_def matches_def match_result_def
      ok_handler_def failing_handler_def scripted_backend_def w0_def perform_def)

text \<open>
  C4 as stated fails for an activation: both commands accept the payload, and the handler
  that runs is the one of the second callback.
\<close>

theorem passive_command_skipped_for_activation:
  "matches (command (overlapping ! 0)) ''/x'' \<and> matches (command (overlapping ! 1)) ''/x'' \<and>
   handleCallbackQuery (scripted_backend 0 no_updates) overlapping {42}
     \<lparr>cq_id = ''q'', cq_from = 42, cq_data = Some ''/x''\<rparr> w0 =
     (Return ''/x'',
      \<lparr>clock = 0,
       trace = [AnswerCallbackQuery ''q'' (Some received),
          Handler (Some ''q'') 1 (MStr ''/x'')]\<rparr>)"
  by (simp add: overlapping_def hidden_cb_def button_cb_def matches_def match_result_def
      handleCallbackQuery_def find_callback_def
      ok_handler_def failing_handler_def scripted_backend_def w0_def perform_def)

subsection \<open>Unauthorized senders\<close>

text \<open>
  C5: an update whose origin is not a configured user is passed over.  The loop goes on
  with the rest of the batch in the same world (no acknowledgement, no handler, no
  result), whatever the callbacks accept; only \<open>lastUpdateId\<close> has moved to the
  identifier of the update.
\<close>

theorem unauthorized_update_discarded:
  assumes "unauthorized userIdSet upd"
  shows "processUpdates bk callbacks userIdSet (upd # rest) lastUpdateId w =
           processUpdates bk callbacks userIdSet rest
             (case update_id upd of Some i \<Rightarrow> i | None \<Rightarrow> lastUpdateId) w"
  using assms
  by (auto simp: unauthorized_def processUpdate_def handleCallbackQuery_def handleMessage_def
      split: option.splits)

text \<open>
  An instance: user 99 presses a button whose command is exactly the payload; only user 42
  is configured.
\<close>

theorem unauthorized_update_discarded_witness:
  "unauthorized {42} (activation 7 99 ''/yes-123'') \<and>
   matches (command (button_cb ''/yes-123'' ok_handler)) ''/yes-123'' \<and>
   processUpdates (scripted_backend 0 no_updates) [button_cb ''/yes-123'' ok_handler] {42}
     [activation 7 99 ''/yes-123''] 0 w0 = (Continue, 7, w0)"
  using unauthorized_update_discarded [of "{42}" "activation 7 99 ''/yes-123''"
      "scripted_backend 0 no_updates" "[button_cb ''/yes-123'' ok_handler]" "[]" 0 w0]
  by (simp add: unauthorized_def activation_def button_cb_def matches_def)

subsection \<open>The result is the raw payload\<close>

lemma handleCallbackQuery_Return:
  assumes "handleCallbackQuery bk callbacks userIdSet query w = (Return v, w')"
  shows "cq_from query \<in> userIdSet \<and> cq_data query = Some v \<and> handler_ran_last callbacks v w'"
  using assms
  by (auto simp: handleCallbackQuery_def handler_ran_last_def
      split: if_splits option.splits prod.splits sum.splits dest!: find_callback_index)

lemma handleMessage_Return:
  assumes "handleMessage callbacks userIdSet msg w = (Return v, w')"
  shows "msg_from msg \<in> userIdSet \<and> msg_text msg = Some v \<and> handler_ran_last callbacks v w'"
  using assms
  by (auto simp: handleMessage_def handler_ran_last_def
      split: if_splits option.splits prod.splits sum.splits dest!: find_callback_index)

lemma processUpdate_Return:
  assumes "processUpdate bk callbacks userIdSet upd w = (Return v, w')"
  shows "raw_payload userIdSet upd v \<and> handler_ran_last callbacks v w'"
  using assms
  by (auto simp: processUpdate_def raw_payload_def
      split: option.splits prod.splits outcome.splits
      dest: handleCallbackQuery_Return handleMessage_Return)

lemma processUpdates_Return:
  assumes "processUpdates bk callbacks userIdSet updates lastUpdateId w = (Return v, l', w')"
  shows "(\<exists>upd\<in>set updates. raw_payload userIdSet upd v) \<and>
         handler_ran_last callbacks v w'"
  using assms
proof (induction updates arbitrary: lastUpdateId w)
  case Nil
  then show ?case by simp
next
  case (Cons upd rest)
  obtain r w1 where pu: "processUpdate bk callbacks userIdSet upd w = (r, w1)"
    by (cases "processUpdate bk callbacks userIdSet upd w")
  show ?case
  proof (cases r)
    case (Return x)
    with pu Cons.prems processUpdate_Return [of bk callbacks userIdSet upd w v w']
    show ?thesis by simp
  next
    case Continue
    with pu Cons.prems Cons.IH show ?thesis by auto
  next
    case Fallthrough
    with pu Cons.prems Cons.IH show ?thesis by auto
  next
    case (Throw e)
    with pu Cons.prems show ?thesis by simp
  qed
qed

lemma pollOnce_Some:
  assumes "pollOnce bk callbacks config p lastUpdateId w = (Some v, l', w')"
  shows "delivered bk (set (telegramUserIds config)) v \<and>
         handler_ran_last callbacks v w'"
proof -
  obtain lat r where g: "getUpdates bk (trace w) (Some (lastUpdateId + 1)) = (lat, r)"
    by (cases "getUpdates bk (trace w) (Some (lastUpdateId + 1))")
  show ?thesis
  proof (cases r)
    case (Inl e)
    with g assms show ?thesis by (simp add: pollOnce_def)
  next
    case (Inr updates)
    let ?w1 = "perform (GetUpdates (Some (lastUpdateId + 1))) lat w"
    obtain r' l1 w1 where pu:
      "processUpdates bk callbacks (set (telegramUserIds config)) updates lastUpdateId ?w1 = (r', l1, w1)"
      by (cases "processUpdates bk callbacks (set (telegramUserIds config)) updates lastUpdateId ?w1")
    with g Inr assms have "r' = Return v \<and> w1 = w'"
      by (cases r') (simp_all add: pollOnce_def)
    with pu processUpdates_Return [of bk callbacks "set (telegramUserIds config)" updates
        lastUpdateId ?w1 v l1 w'] g Inr
    show ?thesis unfolding delivered_def by blast
  qed
qed

lemma pollLoop_Inr:
  assumes "pollLoop bk callbacks config p startTime lastUpdateId w = Some y"
  shows "\<forall>v. fst y = Inr v \<longrightarrow>
           delivered bk (set (telegramUserIds config)) v \<and>
           handler_ran_last callbacks v (snd y)"
proof (rule pollLoop.raw_induct
    [where P = "\<lambda>bk callbacks config p startTime lastUpdateId w y.
       \<forall>v. fst y = Inr v \<longrightarrow>
           delivered bk (set (telegramUserIds config)) v \<and>
           handler_ran_last callbacks v (snd y)", OF _ assms], goal_cases)
  case (1 pollLoop bk callbacks config pollIntervalMs startTime lastUpdateId w y)
  show ?case
  proof (cases "timedOut config startTime w")
    case True
    with 1(2) show ?thesis by auto
  next
    case False
    obtain o' l' w1 where po:
      "pollOnce bk callbacks config pollIntervalMs lastUpdateId w = (o', l', w1)"
      by (cases "pollOnce bk callbacks config pollIntervalMs lastUpdateId w")
    show ?thesis
    proof (cases o')
      case None
      with False po 1(2) have "pollLoop bk callbacks config pollIntervalMs startTime l' w1 = Some y"
        by simp
      from 1(1) [OF this] show ?thesis .
    next
      case (Some v)
      with False po 1(2) pollOnce_Some [of bk callbacks config pollIntervalMs lastUpdateId w v l' w1]
      show ?thesis by auto
    qed
  qed
qed

text \<open>
  C7: when \<open>sendTelegramMessage\<close> returns \<open>v\<close>, then \<open>v\<close> is, unchanged, the callback
  data or the message text of an update that the bot API delivered from a configured user,
  and the last effect is the handler of a callback accepting \<open>v\<close>, invoked with the match
  of its command.  In particular, for the hidden command \<open>/^\/block\s+(.+)$/\<close> and the
  text \<open>/block bad idea\<close>, the handler receives the match array with the group
  \<open>bad idea\<close>, and the result is the whole text.
\<close>

theorem returns_raw_payload:
  "(sendTelegramMessage bk textToSend callbacks config w = Some (Inr v, w') \<longrightarrow>
      delivered bk (set (telegramUserIds config)) v \<and> handler_ran_last callbacks v w') \<and>
   sendTelegramMessage (scripted_backend 0 (on_poll 0 [text_message 7 42 ''/block bad idea'']))
     ''Approve?'' [hidden_cb (Rx block_rx) ok_handler] (example_config 5000 1000) w0 =
     Some (Inr ''/block bad idea'',
       \<lparr>clock = 0,
        trace = [GetMe ''token'', SendMessage 42 ''Approve?'' None,
          GetUpdates None, GetUpdates (Some 1),
          Handler None 0 (MArr [''/block bad idea'', ''bad idea''])]\<rparr>)"
proof (intro conjI impI)
  assume run: "sendTelegramMessage bk textToSend callbacks config w = Some (Inr v, w')"
  then have "\<exists>startTime l0 w3.
    pollLoop bk callbacks config (max (telegramPollIntervalMs config) 1000) startTime l0 w3 =
       Some (Inr v, w')"
    by (auto simp: sendTelegramMessage_def split: sum.splits prod.splits)
  then obtain startTime l0 w3 where
    "pollLoop bk callbacks config (max (telegramPollIntervalMs config) 1000) startTime l0 w3 =
       Some (Inr v, w')"
    by blast
  from pollLoop_Inr [OF this]
  show "delivered bk (set (telegramUserIds config)) v" and "handler_ran_last callbacks v w'"
    by simp_all
next
  show "sendTelegramMessage (scripted_backend 0 (on_poll 0 [text_message 7 42 ''/block bad idea'']))
     ''Approve?'' [hidden_cb (Rx block_rx) ok_handler] (example_config 5000 1000) w0 =
     Some (Inr ''/block bad idea'',
       \<lparr>clock = 0,
        trace = [GetMe ''token'', SendMessage 42 ''Approve?'' None,
          GetUpdates None, GetUpdates (Some 1),
          Handler None 0 (MArr [''/block bad idea'', ''bad idea''])]\<rparr>)"
    by (simp add: sendTelegramMessage_def validateMessageLength_def TELEGRAM_MAX_LENGTH_def
        initializeBot_def reply_markup_def inlineKeyboard_def clearOldUpdates_def
        pollLoop.simps pollOnce_def wait_def timedOut_def processUpdate_def handleMessage_def
        find_callback_def matches_def match_result_def
        block_rx_def block_exec_def is_space_def is_line_terminator_def
        hidden_cb_def ok_handler_def text_message_def on_poll_def is_poll_def
        scripted_backend_def example_config_def w0_def perform_def)
qed

text \<open>
  An instance: the button \<open>/yes-123\<close>, pressed by user 42 and delivered by the second
  poll; the handler is invoked once and the result is \<open>/yes-123\<close>.
\<close>

theorem returns_raw_payload_witness:
  "sendTelegramMessage (scripted_backend 0 (on_poll 1 [activation 7 42 ''/yes-123'']))
     ''Approve?'' [button_cb ''/yes-123'' ok_handler] (example_config 5000 1000) w0 =
     Some (Inr ''/yes-123'',
       \<lparr>clock = 1000,
        trace = [GetMe ''token'',
          SendMessage 42 ''Approve?'' (Some [[Button ''Yes'' ''/yes-123'']]),
          GetUpdates None, GetUpdates (Some 1), Sleep 1000, GetUpdates (Some 1),
          AnswerCallbackQuery ''q'' (Some received),
          Handler (Some ''q'') 0 (MStr ''/yes-123'')]\<rparr>) \<and>
   delivered (scripted_backend 0 (on_poll 1 [activation 7 42 ''/yes-123''])) {42} ''/yes-123'' \<and>
   handler_ran_last [button_cb ''/yes-123'' ok_handler] ''/yes-123''
       \<lparr>clock = 1000,
        trace = [GetMe ''token'',
          SendMessage 42 ''Approve?'' (Some [[Button ''Yes'' ''/yes-123'']]),
          GetUpdates None, GetUpdates (Some 1), Sleep 1000, GetUpdates (Some 1),
          AnswerCallbackQuery ''q'' (Some received),
          Handler (Some ''q'') 0 (MStr ''/yes-123'')]\<rparr>"
proof -
  have run: "sendTelegramMessage (scripted_backend 0 (on_poll 1 [activation 7 42 ''/yes-123'']))
     ''Approve?'' [button_cb ''/yes-123'' ok_handler] (example_config 5000 1000) w0 =
     Some (Inr ''/yes-123'',
       \<lparr>clock = 1000,
        trace = [GetMe ''token'',
          SendMessage 42 ''Approve?'' (Some [[Button ''Yes'' ''/yes-123'']]),
          GetUpdates None, GetUpdates (Some 1), Sleep 1000, GetUpdates (Some 1),
          AnswerCallbackQuery ''q'' (Some received),
          Handler (Some ''q'') 0 (MStr ''/yes-123'')]\<rparr>)"
    by (simp add: sendTelegramMessage_def validateMessageLength_def TELEGRAM_MAX_LENGTH_def
        initializeBot_def reply_markup_def inlineKeyboard_def clearOldUpdates_def
        pollLoop.simps pollOnce_def wait_def timedOut_def processUpdate_def handleCallbackQuery_def
        find_callback_def matches_def match_result_def
        button_cb_def ok_handler_def activation_def on_poll_def is_poll_def
        scripted_backend_def example_config_def w0_def perform_def)
  from returns_raw_payload [THEN conjunct1, rule_format, OF run] run
  show ?thesis by (simp add: example_config_def)
qed

subsection \<open>Acknowledgement before the handler\<close>

text \<open>
  What the processing of one callback query adds to the trace: whenever it invokes a
  handler, and whenever it returns a result, it has added the acknowledgement of the
  query, which succeeded, and then the invocation of the handler.
\<close>

lemma handleCallbackQuery_order:
  assumes "handleCallbackQuery bk callbacks userIdSet query w = (r, w')"
  shows "\<exists>new. trace w' = trace w @ new \<and>
           (((\<exists>src i a. Handler src i a \<in> set new) \<or> (\<exists>v. r = Return v)) \<longrightarrow>
            (\<exists>i a. new = [AnswerCallbackQuery (cq_id query) (Some received),
                      Handler (Some (cq_id query)) i a]) \<and>
            snd (answerCallbackQuery bk (trace w) (cq_id query) (Some received)) = Inr ())"
  using assms
  by (auto simp: handleCallbackQuery_def split: if_splits option.splits prod.splits sum.splits)

lemma acked_from_append:
  "acked_from prev (xs @ ys) =
     (acked_from prev xs \<and> acked_from (if xs = [] then prev else Some (last xs)) ys)"
  by (induction xs arbitrary: prev) auto

lemma acknowledged_first_snoc:
  assumes "acknowledged_first tr" and "\<forall>qid i a. ev \<noteq> Handler (Some qid) i a"
  shows "acknowledged_first (tr @ [ev])"
  using assms
  by (auto simp: acknowledged_first_def acked_from_append split: effect.splits option.splits)

lemma acknowledged_first_perform:
  assumes "acknowledged_first (trace w)" and "\<forall>qid i a. ev \<noteq> Handler (Some qid) i a"
  shows "acknowledged_first (trace (perform ev lat w))"
  using assms by (simp add: acknowledged_first_snoc)

lemma acknowledged_first_handler:
  assumes "acknowledged_first tr"
  shows "acknowledged_first
           (tr @ [AnswerCallbackQuery qid (Some received), Handler (Some qid) i a])"
  using assms
  by (auto simp: acknowledged_first_def acked_from_append)

lemma handleCallbackQuery_acknowledged_first:
  assumes "acknowledged_first (trace w)"
  shows "acknowledged_first (trace (snd (handleCallbackQuery bk callbacks userIdSet query w)))"
  using assms
  by (auto simp: handleCallbackQuery_def acknowledged_first_snoc acknowledged_first_handler
      split: option.splits prod.splits sum.splits)

lemma handleMessage_acknowledged_first:
  assumes "acknowledged_first (trace w)"
  shows "acknowledged_first (trace (snd (handleMessage callbacks userIdSet msg w)))"
  using assms
  by (auto simp: handleMessage_def acknowledged_first_snoc split: option.splits prod.splits)

lemma processUpdate_acknowledged_first:
  assumes "acknowledged_first (trace w)"
  shows "acknowledged_first (trace (snd (processUpdate bk callbacks userIdSet upd w)))"
proof (cases "callback_query upd")
  case None
  with assms handleMessage_acknowledged_first [OF assms] show ?thesis
    by (simp add: processUpdate_def split: option.splits)
next
  case (Some query)
  obtain r w1 where h: "handleCallbackQuery bk callbacks userIdSet query w = (r, w1)"
    by (cases "handleCallbackQuery bk callbacks userIdSet query w")
  with handleCallbackQuery_acknowledged_first [OF assms, of bk callbacks userIdSet query]
  have "acknowledged_first (trace w1)" by simp
  with Some h handleMessage_acknowledged_first [of w1] show ?thesis
    by (cases r) (simp_all add: processUpdate_def split: option.splits)
qed

lemma processUpdates_acknowledged_first:
  assumes "acknowledged_first (trace w)"
  shows "acknowledged_first
           (trace (snd (snd (processUpdates bk callbacks userIdSet updates lastUpdateId w))))"
  using assms
proof (induction updates arbitrary: lastUpdateId w)
  case Nil
  then show ?case by simp
next
  case (Cons upd rest)
  obtain r w1 where pu: "processUpdate bk callbacks userIdSet upd w = (r, w1)"
    by (cases "processUpdate bk callbacks userIdSet upd w")
  with processUpdate_acknowledged_first [OF Cons.prems, of bk callbacks userIdSet upd]
  have "acknowledged_first (trace w1)" by simp
  with pu Cons.IH [of w1] show ?case
    by (cases r) simp_all
qed

lemma pollOnce_acknowledged_first:
  assumes "acknowledged_first (trace w)"
  shows "acknowledged_first
           (trace (snd (snd (pollOnce bk callbacks config p lastUpdateId w))))"
proof -
  obtain lat r where g: "getUpdates bk (trace w) (Some (lastUpdateId + 1)) = (lat, r)"
    by (cases "getUpdates bk (trace w) (Some (lastUpdateId + 1))")
  let ?w1 = "perform (GetUpdates (Some (lastUpdateId + 1))) lat w"
  have w1: "acknowledged_first (trace ?w1)"
    using assms by (simp add: acknowledged_first_snoc)
  have sleep: "acknowledged_first (trace (wait bk p w2))"
    if "acknowledged_first (trace w2)" for w2
    unfolding wait_def using that by (intro acknowledged_first_perform) simp_all
  show ?thesis
  proof (cases r)
    case (Inl e)
    with g sleep [OF w1] show ?thesis
      by (simp add: pollOnce_def del: trace_perform)
  next
    case (Inr updates)
    obtain r' l1 w2 where pu:
      "processUpdates bk callbacks (set (telegramUserIds config)) updates lastUpdateId ?w1 = (r', l1, w2)"
      by (cases "processUpdates bk callbacks (set (telegramUserIds config)) updates lastUpdateId ?w1")
    with processUpdates_acknowledged_first [OF w1, of bk callbacks "set (telegramUserIds config)"
        updates lastUpdateId]
    have w2: "acknowledged_first (trace w2)" by simp
    with g Inr pu sleep [OF w2] show ?thesis
      by (cases r') (simp_all add: pollOnce_def del: trace_perform)
  qed
qed

lemma pollLoop_acknowledged_first:
  assumes "pollLoop bk callbacks config p startTime lastUpdateId w = Some y"
  shows "acknowledged_first (trace w) \<longrightarrow> acknowledged_first (trace (snd y))"
proof (rule pollLoop.raw_induct
    [where P = "\<lambda>bk callbacks config p startTime lastUpdateId w y.
       acknowledged_first (trace w) \<longrightarrow> acknowledged_first (trace (snd y))", OF _ assms],
    goal_cases)
  case (1 pollLoop bk callbacks config pollIntervalMs startTime lastUpdateId w y)
  show ?case
  proof
    assume a: "acknowledged_first (trace w)"
    show "acknowledged_first (trace (snd y))"
    proof (cases "timedOut config startTime w")
      case True
      with 1(2) a show ?thesis by auto
    next
      case False
      obtain o' l' w1 where po:
        "pollOnce bk callbacks config pollIntervalMs lastUpdateId w = (o', l', w1)"
        by (cases "pollOnce bk callbacks config pollIntervalMs lastUpdateId w")
      with pollOnce_acknowledged_first [OF a, of bk callbacks config pollIntervalMs lastUpdateId]
      have w1: "acknowledged_first (trace w1)" by simp
      show ?thesis
      proof (cases o')
        case None
        with False po 1(2) have "pollLoop bk callbacks config pollIntervalMs startTime l' w1 = Some y"
          by simp
        from 1(1) [OF this] w1 show ?thesis by simp
      next
        case (Some v)
        with False po 1(2) w1 show ?thesis by auto
      qed
    qed
  qed
qed

lemma sendAll_acknowledged_first:
  assumes "acknowledged_first (trace w)"
  shows "acknowledged_first (trace (snd (sendAll bk textToSend kb userIds w)))"
  using assms
proof (induction userIds arbitrary: w)
  case Nil
  then show ?case by simp
next
  case (Cons userId rest)
  obtain lat r where s: "sendMessage bk (trace w) userId textToSend kb = (lat, r)"
    by (cases "sendMessage bk (trace w) userId textToSend kb")
  have "acknowledged_first (trace (perform (SendMessage userId textToSend kb) lat w))"
    using Cons.prems by (simp add: acknowledged_first_snoc)
  with s Cons.IH show ?case
    by (cases r) simp_all
qed

lemma sendTelegramMessage_acknowledged_first:
  assumes "sendTelegramMessage bk textToSend callbacks config w = Some (res, w')"
    and "acknowledged_first (trace w)"
  shows "acknowledged_first (trace w')"
proof (cases "validateMessageLength textToSend")
  case (Inl e)
  with assms show ?thesis by (simp add: sendTelegramMessage_def)
next
  case (Inr u)
  obtain r1 w1 where i: "initializeBot bk (telegramBotToken config) w = (r1, w1)"
    by (cases "initializeBot bk (telegramBotToken config) w")
  then have w1: "acknowledged_first (trace w1)"
    using assms(2) by (auto simp: initializeBot_def acknowledged_first_snoc split: prod.splits)
  show ?thesis
  proof (cases r1)
    case (Inl e)
    with Inr i assms(1) w1 show ?thesis by (simp add: sendTelegramMessage_def)
  next
    case r1: (Inr u1)
    obtain r2 w2 where s: "sendAll bk textToSend (reply_markup callbacks)
        (telegramUserIds config) w1 = (r2, w2)"
      by (cases "sendAll bk textToSend (reply_markup callbacks) (telegramUserIds config) w1")
    with sendAll_acknowledged_first [OF w1, of bk textToSend "reply_markup callbacks"
        "telegramUserIds config"]
    have w2: "acknowledged_first (trace w2)" by simp
    show ?thesis
    proof (cases r2)
      case (Inl e)
      with Inr i r1 s assms(1) w2 show ?thesis by (simp add: sendTelegramMessage_def)
    next
      case r2: (Inr u2)
      obtain l0 w3 where c: "clearOldUpdates bk w2 = (l0, w3)"
        by (cases "clearOldUpdates bk w2")
      then have w3: "acknowledged_first (trace w3)"
        using w2 by (auto simp: clearOldUpdates_def acknowledged_first_snoc split: prod.splits)
      from Inr i r1 s r2 c assms(1)
      have "pollLoop bk callbacks config (max (telegramPollIntervalMs config) 1000) (clock w2)
          l0 w3 = Some (res, w')"
        by (simp add: sendTelegramMessage_def)
      from pollLoop_acknowledged_first [OF this] w3 show ?thesis by simp
    qed
  qed
qed

lemma acked_from_nth:
  "acked_from prev tr =
     (\<forall>k<length tr. \<forall>qid i a. tr ! k = Handler (Some qid) i a \<longrightarrow>
        (if k = 0 then prev else Some (tr ! (k - 1))) =
          Some (AnswerCallbackQuery qid (Some received)))"
proof (induction tr arbitrary: prev)
  case Nil
  then show ?case by simp
next
  case (Cons ev evs)
  have head: "(case ev of Handler (Some qid) i a \<Rightarrow>
                 prev = Some (AnswerCallbackQuery qid (Some received)) | _ \<Rightarrow> True) =
        (\<forall>qid i a. ev = Handler (Some qid) i a \<longrightarrow>
           prev = Some (AnswerCallbackQuery qid (Some received)))"
    by (auto split: effect.splits option.splits)
  have tail: "(\<forall>k<length evs. \<forall>qid i a. evs ! k = Handler (Some qid) i a \<longrightarrow>
        (if k = 0 then Some ev else Some (evs ! (k - 1))) =
          Some (AnswerCallbackQuery qid (Some received))) =
      (\<forall>k<length evs. \<forall>qid i a. (ev # evs) ! Suc k = Handler (Some qid) i a \<longrightarrow>
        Some ((ev # evs) ! k) = Some (AnswerCallbackQuery qid (Some received)))"
    by (auto simp: nth_Cons' split: if_splits)
  have split: "(\<forall>k<length (ev # evs). Q k) = (Q 0 \<and> (\<forall>k<length evs. Q (Suc k)))" for Q
    by (auto simp: less_Suc_eq_0_disj)
  show ?case
    unfolding acked_from.simps Cons.IH head tail
    by (subst split) simp
qed

lemma acknowledged_first_nth:
  "acknowledged_first tr =
     (\<forall>k<length tr. \<forall>qid i a. tr ! k = Handler (Some qid) i a \<longrightarrow>
        0 < k \<and> tr ! (k - 1) = AnswerCallbackQuery qid (Some received))"
  unfolding acknowledged_first_def acked_from_nth
proof (intro iffI allI impI, goal_cases)
  case (1 k qid i a)
  then have "(if k = 0 then None else Some (tr ! (k - 1))) =
      Some (AnswerCallbackQuery qid (Some received))" by blast
  then show ?case by (cases "k = 0") simp_all
next
  case (2 k qid i a)
  then have "0 < k \<and> tr ! (k - 1) = AnswerCallbackQuery qid (Some received)" by blast
  then show ?case by simp
qed

text \<open>
  C6: a trace is acknowledged first when every invocation of a handler for a callback
  query stands in it directly after the acknowledgement of that query with the text
  \<open>received\<close>.  Every iteration of the poll loop keeps a trace acknowledged first, whether
  the loop ever ends or not.  In every run of \<open>sendTelegramMessage\<close> that ends, from a
  trace that is acknowledged first (the empty trace is), the final trace is acknowledged
  first, and when the run returns a result, the invocation of a handler is the last effect
  before the return.  So for an exchange resolved by an activation the acknowledgement
  precedes the handler, and the handler the return; no handler runs for an activation that
  has not been acknowledged.  Moreover the processing of a callback query invokes a handler
  or returns a result only when the acknowledgement of the query succeeded.
\<close>

theorem acknowledged_before_handler:
  assumes "sendTelegramMessage bk textToSend callbacks config w = Some (res, w')"
    and "acknowledged_first (trace w)"
  shows "(\<forall>p lastUpdateId ws. acknowledged_first (trace ws) \<longrightarrow>
            acknowledged_first
              (trace (snd (snd (pollOnce bk callbacks config p lastUpdateId ws))))) \<and>
         (\<forall>k<length (trace w'). \<forall>qid i a. trace w' ! k = Handler (Some qid) i a \<longrightarrow>
            0 < k \<and> trace w' ! (k - 1) = AnswerCallbackQuery qid (Some received)) \<and>
         (\<forall>v. res = Inr v \<longrightarrow> (\<exists>pre src i a. trace w' = pre @ [Handler src i a])) \<and>
         (\<forall>query ws r ws'.
            handleCallbackQuery bk callbacks (set (telegramUserIds config)) query ws = (r, ws') \<and>
            ((\<exists>src i a. Handler src i a \<in> set (drop (length (trace ws)) (trace ws'))) \<or>
             (\<exists>v. r = Return v)) \<longrightarrow>
            snd (answerCallbackQuery bk (trace ws) (cq_id query) (Some received)) = Inr ())"
proof -
  have succeeded: "\<forall>query ws r ws'.
            handleCallbackQuery bk callbacks (set (telegramUserIds config)) query ws = (r, ws') \<and>
            ((\<exists>src i a. Handler src i a \<in> set (drop (length (trace ws)) (trace ws'))) \<or>
             (\<exists>v. r = Return v)) \<longrightarrow>
            snd (answerCallbackQuery bk (trace ws) (cq_id query) (Some received)) = Inr ()"
  proof (intro allI impI, elim conjE)
    fix query ws r ws'
    assume that: "handleCallbackQuery bk callbacks (set (telegramUserIds config)) query ws = (r, ws')"
      "(\<exists>src i a. Handler src i a \<in> set (drop (length (trace ws)) (trace ws'))) \<or>
           (\<exists>v. r = Return v)"
    from handleCallbackQuery_order [OF that(1)] obtain new where
      both: "trace ws' = trace ws @ new \<and>
        (((\<exists>src i a. Handler src i a \<in> set new) \<or> (\<exists>v. r = Return v)) \<longrightarrow>
         (\<exists>i a. new = [AnswerCallbackQuery (cq_id query) (Some received),
                      Handler (Some (cq_id query)) i a]) \<and>
         snd (answerCallbackQuery bk (trace ws) (cq_id query) (Some received)) = Inr ())"
      by (rule exE)
    note new = both [THEN conjunct1] and imp = both [THEN conjunct2]
    from new have added: "drop (length (trace ws)) (trace ws') = new" by simp
    from that(2) have "(\<exists>src i a. Handler src i a \<in> set new) \<or> (\<exists>v. r = Return v)"
      unfolding added .
    with imp
    show "snd (answerCallbackQuery bk (trace ws) (cq_id query) (Some received)) = Inr ()"
      by (rule mp [THEN conjunct2])
  qed
  have step: "\<forall>p lastUpdateId ws. acknowledged_first (trace ws) \<longrightarrow>
            acknowledged_first
              (trace (snd (snd (pollOnce bk callbacks config p lastUpdateId ws))))"
    by (simp add: pollOnce_acknowledged_first)
  from sendTelegramMessage_acknowledged_first [OF assms]
  have inv: "\<forall>k<length (trace w'). \<forall>qid i a. trace w' ! k = Handler (Some qid) i a \<longrightarrow>
            0 < k \<and> trace w' ! (k - 1) = AnswerCallbackQuery qid (Some received)"
    by (simp only: acknowledged_first_nth)
  have last: "\<forall>v. res = Inr v \<longrightarrow> (\<exists>pre src i a. trace w' = pre @ [Handler src i a])"
  proof (intro allI impI)
    fix v
    assume that: "res = Inr v"
    from assms(1) that have "\<exists>startTime l0 w3.
      pollLoop bk callbacks config (max (telegramPollIntervalMs config) 1000) startTime l0 w3 =
        Some (Inr v, w')"
      by (auto simp: sendTelegramMessage_def split: sum.splits prod.splits)
    then obtain startTime l0 w3 where
      "pollLoop bk callbacks config (max (telegramPollIntervalMs config) 1000) startTime l0 w3 =
        Some (Inr v, w')" by blast
    from pollLoop_Inr [OF this] have "handler_ran_last callbacks v w'" by simp
    then show "\<exists>pre src i a. trace w' = pre @ [Handler src i a]"
      unfolding handler_ran_last_def by blast
  qed
  show ?thesis
    by (intro conjI) (rule step, rule inv, rule last, rule succeeded)
qed

text \<open>
  An instance: the button \<open>/yes-123\<close>, pressed by user 42 and delivered by the second
  poll.
\<close>

theorem acknowledged_before_handler_witness:
  "acknowledged_first (trace w0) \<and>
   sendTelegramMessage (scripted_backend 0 (on_poll 1 [activation 7 42 ''/yes-123'']))
     ''Approve?'' [button_cb ''/yes-123'' ok_handler] (example_config 5000 1000) w0 =
     Some (Inr ''/yes-123'',
       \<lparr>clock = 1000,
        trace = [GetMe ''token'',
          SendMessage 42 ''Approve?'' (Some [[Button ''Yes'' ''/yes-123'']]),
          GetUpdates None, GetUpdates (Some 1), Sleep 1000, GetUpdates (Some 1),
          AnswerCallbackQuery ''q'' (Some received),
          Handler (Some ''q'') 0 (MStr ''/yes-123'')]\<rparr>) \<and>
   acknowledged_first [GetMe ''token'',
          SendMessage 42 ''Approve?'' (Some [[Button ''Yes'' ''/yes-123'']]),
          GetUpdates None, GetUpdates (Some 1), Sleep 1000, GetUpdates (Some 1),
          AnswerCallbackQuery ''q'' (Some received),
          Handler (Some ''q'') 0 (MStr ''/yes-123'')]"
proof -
  have start: "acknowledged_first (trace w0)"
    by (simp add: acknowledged_first_def w0_def)
  have run: "sendTelegramMessage (scripted_backend 0 (on_poll 1 [activation 7 42 ''/yes-123'']))
     ''Approve?'' [button_cb ''/yes-123'' ok_handler] (example_config 5000 1000) w0 =
     Some (Inr ''/yes-123'',
       \<lparr>clock = 1000,
        trace = [GetMe ''token'',
          SendMessage 42 ''Approve?'' (Some [[Button ''Yes'' ''/yes-123'']]),
          GetUpdates None, GetUpdates (Some 1), Sleep 1000, GetUpdates (Some 1),
          AnswerCallbackQuery ''q'' (Some received),
          Handler (Some ''q'') 0 (MStr ''/yes-123'')]\<rparr>)"
    by (simp add: sendTelegramMessage_def validateMessageLength_def TELEGRAM_MAX_LENGTH_def
        initializeBot_def reply_markup_def inlineKeyboard_def clearOldUpdates_def
        pollLoop.simps pollOnce_def wait_def timedOut_def processUpdate_def handleCallbackQuery_def
        find_callback_def matches_def match_result_def
        button_cb_def ok_handler_def activation_def on_poll_def is_poll_def
        scripted_backend_def example_config_def w0_def perform_def)
  from acknowledged_before_handler [OF run start, THEN conjunct2, THEN conjunct1]
  have "acknowledged_first [GetMe ''token'',
          SendMessage 42 ''Approve?'' (Some [[Button ''Yes'' ''/yes-123'']]),
          GetUpdates None, GetUpdates (Some 1), Sleep 1000, GetUpdates (Some 1),
          AnswerCallbackQuery ''q'' (Some received),
          Handler (Some ''q'') 0 (MStr ''/yes-123'')]"
    by (simp only: acknowledged_first_nth world.simps)
  with start run show ?thesis by simp
qed

subsection \<open>Priming the cursor\<close>

lemma fold_max_sorted:
  "sorted (i # ids) \<Longrightarrow> fold max ids i = last (i # ids)"
proof (induction ids arbitrary: i)
  case Nil
  then show ?case by simp
next
  case (Cons j ids)
  then have "max j i = j" "sorted (j # ids)" by auto
  with Cons.IH [of j] show ?case by simp
qed

lemma map_filter_all_Some:
  "\<forall>u\<in>set us. f u \<noteq> None \<Longrightarrow> us \<noteq> [] \<Longrightarrow>
   List.map_filter f us \<noteq> [] \<and> Some (last (List.map_filter f us)) = f (last us)"
proof (induction us)
  case Nil
  then show ?case by simp
next
  case (Cons u us)
  then obtain i where i: "f u = Some i" by auto
  show ?case
  proof (cases "us = []")
    case True
    with i show ?thesis by (simp add: List.map_filter_simps)
  next
    case False
    with Cons i show ?thesis by (simp add: List.map_filter_simps)
  qed
qed

lemma highest_is_last:
  assumes "updates \<noteq> []" and "\<forall>u\<in>set updates. update_id u \<noteq> None"
    and "sorted (List.map_filter update_id updates)"
  shows "update_id (last updates) = Some (highest_update_id updates)"
proof -
  from map_filter_all_Some [OF assms(2,1)] obtain i ids where
    ids: "List.map_filter update_id updates = i # ids"
    and lst: "Some (last (i # ids)) = update_id (last updates)"
    by (cases "List.map_filter update_id updates") auto
  with assms(3) fold_max_sorted [of i ids] show ?thesis
    by (simp add: highest_update_id_def)
qed

text \<open>
  C8, as the code has it.  After the deliveries, \<open>clearOldUpdates\<close> calls \<open>getUpdates\<close>
  once, without offset, and always gives a baseline: \<open>0\<close> when the call fails or the
  queue is empty, and otherwise the identifier of the last update of the answer (\<open>0\<close> if
  that is undefined).  This is the highest identifier of the batch when the identifiers
  are all defined and in ascending order.  In every case the exchange goes on with the
  poll loop from this baseline.
\<close>

theorem priming_baseline:
  assumes "getUpdates bk (trace w2) None = (lat, r)"
  shows "\<exists>baseline.
           clearOldUpdates bk w2 = (baseline, perform (GetUpdates None) lat w2) \<and>
           (\<forall>e. r = Inl e \<longrightarrow> baseline = 0) \<and>
           (r = Inr [] \<longrightarrow> baseline = 0) \<and>
           (\<forall>updates. r = Inr updates \<and> updates \<noteq> [] \<longrightarrow>
              baseline = (case update_id (last updates) of Some i \<Rightarrow> i | None \<Rightarrow> 0)) \<and>
           (\<forall>updates. r = Inr updates \<and> updates \<noteq> [] \<and>
              (\<forall>u\<in>set updates. update_id u \<noteq> None) \<and>
              sorted (List.map_filter update_id updates) \<longrightarrow>
              baseline = highest_update_id updates) \<and>
           (length textToSend \<le> 4096 \<and>
            initializeBot bk (telegramBotToken config) w = (Inr (), w1) \<and>
            sendAll bk textToSend (reply_markup callbacks) (telegramUserIds config) w1 =
              (Inr (), w2) \<longrightarrow>
            sendTelegramMessage bk textToSend callbacks config w =
              pollLoop bk callbacks config (max (telegramPollIntervalMs config) 1000)
                (clock w2) baseline (perform (GetUpdates None) lat w2))"
proof -
  obtain baseline where b: "clearOldUpdates bk w2 = (baseline, perform (GetUpdates None) lat w2)"
    using assms by (simp add: clearOldUpdates_def)
  have "baseline = highest_update_id updates"
    if "r = Inr updates" "updates \<noteq> []" "\<forall>u\<in>set updates. update_id u \<noteq> None"
      "sorted (List.map_filter update_id updates)" for updates
    using highest_is_last [OF that(2,3,4)] that(1,2) assms b
    by (simp add: clearOldUpdates_def)
  moreover have "sendTelegramMessage bk textToSend callbacks config w =
              pollLoop bk callbacks config (max (telegramPollIntervalMs config) 1000)
                (clock w2) baseline (perform (GetUpdates None) lat w2)"
    if "length textToSend \<le> 4096"
      "initializeBot bk (telegramBotToken config) w = (Inr (), w1)"
      "sendAll bk textToSend (reply_markup callbacks) (telegramUserIds config) w1 = (Inr (), w2)"
    using that b
    by (simp add: sendTelegramMessage_def validateMessageLength_def TELEGRAM_MAX_LENGTH_def)
  moreover have "\<forall>e. r = Inl e \<longrightarrow> baseline = 0" "r = Inr [] \<longrightarrow> baseline = 0"
    "\<forall>updates. r = Inr updates \<and> updates \<noteq> [] \<longrightarrow>
              baseline = (case update_id (last updates) of Some i \<Rightarrow> i | None \<Rightarrow> 0)"
    using assms b by (auto simp: clearOldUpdates_def)
  ultimately show ?thesis using b by blast
qed

text \<open>
  An instance: a queue with the identifiers 3 and 5 in this order gives the baseline 5; a
  failing call gives the baseline 0.
\<close>

theorem priming_baseline_witness:
  "clearOldUpdates (scripted_backend 0 ordered) w0 = (5, perform (GetUpdates None) 0 w0) \<and>
   highest_update_id [activation 3 99 ''/older'', activation 5 99 ''/old''] = 5 \<and>
   clearOldUpdates (scripted_backend 0 (\<lambda>h off. Inl ''network down'')) w0 =
     (0, perform (GetUpdates None) 0 w0)"
proof -
  have g: "getUpdates (scripted_backend 0 ordered) (trace w0) None =
      (0, Inr [activation 3 99 ''/older'', activation 5 99 ''/old''])"
    by (simp add: scripted_backend_def ordered_def)
  have g': "getUpdates (scripted_backend 0 (\<lambda>h off. Inl ''network down'')) (trace w0) None =
      (0, Inl ''network down'')"
    by (simp add: scripted_backend_def)
  have s: "sorted (List.map_filter update_id [activation 3 99 ''/older'', activation 5 99 ''/old''])"
    by (simp add: List.map_filter_simps activation_def)
  have h: "highest_update_id [activation 3 99 ''/older'', activation 5 99 ''/old''] = 5"
    by (simp add: highest_update_id_def List.map_filter_simps activation_def)
  from priming_baseline [OF g] s h
  have "clearOldUpdates (scripted_backend 0 ordered) w0 = (5, perform (GetUpdates None) 0 w0)"
    by (auto simp: activation_def)
  moreover from priming_baseline [OF g']
  have "clearOldUpdates (scripted_backend 0 (\<lambda>h off. Inl ''network down'')) w0 =
     (0, perform (GetUpdates None) 0 w0)"
    by auto
  ultimately show ?thesis using h by simp
qed

text \<open>
  C8 as stated fails when the answer is not in ascending order: for the identifiers 5 and
  3 in this order the baseline is 3, and the highest identifier is 5.
\<close>

theorem baseline_is_last_not_highest:
  "fst (clearOldUpdates (scripted_backend 0 unordered) w0) = 3 \<and>
   highest_update_id [activation 5 99 ''/old'', activation 3 99 ''/older''] = 5"
  by (simp add: clearOldUpdates_def scripted_backend_def unordered_def w0_def activation_def
      highest_update_id_def List.map_filter_simps)

subsection \<open>Unmatched activations\<close>

text \<open>
  C9, as the code has it: an activation of a configured user whose payload is not empty and
  is accepted by no \<open>inline-button\<close> callback is acknowledged (without a text), and is
  not a result.  When the acknowledgement succeeds the loop goes on with the rest of the
  batch; when it throws, the exception goes to the \<open>catch\<close> of the poll iteration.  An
  activation whose payload is empty or absent is passed over: the loop goes on with the
  rest of the batch in the same world, so without an acknowledgement.
\<close>

theorem unmatched_activation_acknowledged:
  assumes "callback_query upd = Some query" and "message upd = None"
    and "cq_from query \<in> userIdSet"
    and "cq_data query = Some callbackData" and "callbackData \<noteq> []"
    and "\<forall>cb\<in>set callbacks. cb_type cb = InlineButton \<longrightarrow> \<not> matches (command cb) callbackData"
    and "answerCallbackQuery bk (trace w) (cq_id query) None = (lat, r)"
  shows "processUpdates bk callbacks userIdSet (upd # rest) lastUpdateId w =
           (case r of
              Inl e \<Rightarrow>
                (Throw e, case update_id upd of Some i \<Rightarrow> i | None \<Rightarrow> lastUpdateId,
                 perform (AnswerCallbackQuery (cq_id query) None) lat w)
            | Inr u \<Rightarrow>
                processUpdates bk callbacks userIdSet rest
                  (case update_id upd of Some i \<Rightarrow> i | None \<Rightarrow> lastUpdateId)
                  (perform (AnswerCallbackQuery (cq_id query) None) lat w)) \<and>
         (\<forall>upd' query' rest' lastUpdateId' w'.
            callback_query upd' = Some query' \<and>
            (cq_data query' = None \<or> cq_data query' = Some []) \<longrightarrow>
            processUpdates bk callbacks userIdSet (upd' # rest') lastUpdateId' w' =
              processUpdates bk callbacks userIdSet rest'
                (case update_id upd' of Some i \<Rightarrow> i | None \<Rightarrow> lastUpdateId') w')"
proof -
  have "find_callback (\<lambda>cb. cb_type cb = InlineButton \<and> matches (command cb) callbackData)
          callbacks = None"
    using assms(6) by (intro find_callback_None) auto
  with assms have acknowledged: "processUpdates bk callbacks userIdSet (upd # rest) lastUpdateId w =
           (case r of
              Inl e \<Rightarrow>
                (Throw e, case update_id upd of Some i \<Rightarrow> i | None \<Rightarrow> lastUpdateId,
                 perform (AnswerCallbackQuery (cq_id query) None) lat w)
            | Inr u \<Rightarrow>
                processUpdates bk callbacks userIdSet rest
                  (case update_id upd of Some i \<Rightarrow> i | None \<Rightarrow> lastUpdateId)
                  (perform (AnswerCallbackQuery (cq_id query) None) lat w))"
    by (simp add: processUpdate_def handleCallbackQuery_def split: sum.splits)
  have skipped: "\<forall>upd' query' rest' lastUpdateId' w'.
            callback_query upd' = Some query' \<and>
            (cq_data query' = None \<or> cq_data query' = Some []) \<longrightarrow>
            processUpdates bk callbacks userIdSet (upd' # rest') lastUpdateId' w' =
              processUpdates bk callbacks userIdSet rest'
                (case update_id upd' of Some i \<Rightarrow> i | None \<Rightarrow> lastUpdateId') w'"
    by (auto simp: processUpdate_def handleCallbackQuery_def)
  from acknowledged skipped show ?thesis by (rule conjI)
qed

text \<open>
  An instance: user 42 sends the payload \<open>/other\<close>, the only button is \<open>/yes-123\<close>.
\<close>

theorem unmatched_activation_acknowledged_witness:
  "processUpdates (scripted_backend 0 no_updates) [button_cb ''/yes-123'' ok_handler] {42}
     [activation 7 42 ''/other''] 0 w0 =
     (Continue, 7, \<lparr>clock = 0, trace = [AnswerCallbackQuery ''q'' None]\<rparr>)"
  using unmatched_activation_acknowledged [of "activation 7 42 ''/other''"
      "\<lparr>cq_id = ''q'', cq_from = 42, cq_data = Some ''/other''\<rparr>" "{42}" "''/other''"
      "[button_cb ''/yes-123'' ok_handler]" "scripted_backend 0 no_updates" w0 0 "Inr ()" "[]" 0,
      THEN conjunct1]
  by (simp add: activation_def button_cb_def matches_def scripted_backend_def w0_def perform_def)

text \<open>
  C9 as stated fails for the empty payload: the activation is passed over before the
  search, and nothing is acknowledged.
\<close>

theorem empty_activation_not_acknowledged:
  "processUpdates (scripted_backend 0 no_updates) [button_cb ''/yes-123'' ok_handler] {42}
     [activation 7 42 []] 0 w0 = (Continue, 7, \<lparr>clock = 0, trace = []\<rparr>)"
  by (simp add: activation_def processUpdate_def handleCallbackQuery_def w0_def)

section \<open>Properties of the configuration loader\<close>

lemma truthy_DEFAULT: "truthy (Some DEFAULT_CONFIG)"
  by (simp add: truthy_def DEFAULT_CONFIG_def)

lemma get_field_truthy: "get_field c k = Inr v \<Longrightarrow> truthy v \<Longrightarrow> truthy (Some c)"
  by (cases c) (auto simp: get_field_def truthy_def)

lemma readConfig_truthy:
  assumes "readConfig JSON_parse disk = Inr c"
  shows "truthy (Some c)"
proof (cases disk)
  case Absent
  with assms show ?thesis by (simp add: readConfig_def truthy_DEFAULT)
next
  case (Content body)
  with assms show ?thesis
    by (auto simp: readConfig_def split: option.splits sum.splits if_splits
        dest: get_field_truthy)
next
  case ExistsFails
  with assms show ?thesis by (simp add: readConfig_def)
next
  case ReadFails
  with assms show ?thesis by (simp add: readConfig_def)
qed

lemma loadConfig_fresh:
  "\<exists>c. loadConfig JSON_parse disk None = (c, Some c) \<and> truthy (Some c)"
  by (cases "readConfig JSON_parse disk")
     (auto simp: loadConfig_def truthy_def [of None] truthy_DEFAULT dest: readConfig_truthy)

text \<open>
  C10: from an empty cache, \<open>loadConfig\<close> returns a configuration for every state of the
  file and every parser, and caches it; a later call returns the cached configuration,
  whatever the file has become; after \<open>clearConfigCache\<close> a call reads the file again.
  When the file is absent or unreadable, its text does not parse, or the parsed value is
  \<open>null\<close> or lacks a truthy \<open>logLevel\<close> or \<open>logFile\<close>, the configuration is the default one.
  A parsed value with both fields truthy is returned as parsed, and every truthy cached
  value is returned as it is.
\<close>

theorem loadConfig_total_and_cached:
  "(\<exists>c. loadConfig JSON_parse disk None = (c, Some c) \<and>
        loadConfig JSON_parse disk' (Some c) = (c, Some c) \<and>
        loadConfig JSON_parse disk' (clearConfigCache (Some c)) = loadConfig JSON_parse disk' None) \<and>
   ((disk = Absent \<or> disk = ExistsFails \<or> disk = ReadFails \<or>
     (\<exists>txt. disk = Content txt \<and>
        (JSON_parse txt = None \<or>
         (\<exists>config. JSON_parse txt = Some config \<and>
            (config = JNull \<or>
             (\<exists>logLevel logFile. get_field config ''logLevel'' = Inr logLevel \<and>
                 get_field config ''logFile'' = Inr logFile \<and>
                 (\<not> truthy logLevel \<or> \<not> truthy logFile))))))) \<longrightarrow>
    loadConfig JSON_parse disk None = (DEFAULT_CONFIG, Some DEFAULT_CONFIG)) \<and>
   (\<forall>txt config logLevel logFile.
      disk = Content txt \<and> JSON_parse txt = Some config \<and>
      get_field config ''logLevel'' = Inr logLevel \<and> truthy logLevel \<and>
      get_field config ''logFile'' = Inr logFile \<and> truthy logFile \<longrightarrow>
      loadConfig JSON_parse disk None = (config, Some config)) \<and>
   (\<forall>cached. truthy (Some cached) \<longrightarrow>
      loadConfig JSON_parse disk (Some cached) = (cached, Some cached))"
proof (intro conjI impI allI)
  from loadConfig_fresh [of JSON_parse disk] obtain c where
    c: "loadConfig JSON_parse disk None = (c, Some c)" "truthy (Some c)" by blast
  then have "loadConfig JSON_parse disk' (Some c) = (c, Some c)"
    by (simp add: loadConfig_def)
  with c show "\<exists>c. loadConfig JSON_parse disk None = (c, Some c) \<and>
        loadConfig JSON_parse disk' (Some c) = (c, Some c) \<and>
        loadConfig JSON_parse disk' (clearConfigCache (Some c)) = loadConfig JSON_parse disk' None"
    by (auto simp: clearConfigCache_def)
next
  assume "disk = Absent \<or> disk = ExistsFails \<or> disk = ReadFails \<or>
     (\<exists>txt. disk = Content txt \<and>
        (JSON_parse txt = None \<or>
         (\<exists>config. JSON_parse txt = Some config \<and>
            (config = JNull \<or>
             (\<exists>logLevel logFile. get_field config ''logLevel'' = Inr logLevel \<and>
                 get_field config ''logFile'' = Inr logFile \<and>
                 (\<not> truthy logLevel \<or> \<not> truthy logFile))))))"
  then show "loadConfig JSON_parse disk None = (DEFAULT_CONFIG, Some DEFAULT_CONFIG)"
    by (auto simp: loadConfig_def readConfig_def truthy_def [of None] get_field_def [of JNull])
next
  fix body config logLevel logFile
  assume "disk = Content body \<and> JSON_parse body = Some config \<and>
      get_field config ''logLevel'' = Inr logLevel \<and> truthy logLevel \<and>
      get_field config ''logFile'' = Inr logFile \<and> truthy logFile"
  then show "loadConfig JSON_parse disk None = (config, Some config)"
    by (simp add: loadConfig_def readConfig_def truthy_def [of None])
next
  fix cached
  assume "truthy (Some cached)"
  then show "loadConfig JSON_parse disk (Some cached) = (cached, Some cached)"
    by (simp add: loadConfig_def)
qed

text \<open>
  An instance: the file holds a valid object, which the first call returns; a second call
  returns it again although the file now holds an object without fields, which a call
  with an empty or a cleared cache answers with the defaults.
\<close>

theorem loadConfig_total_and_cached_witness:
  "loadConfig toy_parse (Content ''{logLevel: debug, logFile: x.log}'') None =
     (JObj [(''logLevel'', JStr ''debug''), (''logFile'', JStr ''x.log'')],
      Some (JObj [(''logLevel'', JStr ''debug''), (''logFile'', JStr ''x.log'')])) \<and>
   loadConfig toy_parse (Content ''{}'')
     (Some (JObj [(''logLevel'', JStr ''debug''), (''logFile'', JStr ''x.log'')])) =
     (JObj [(''logLevel'', JStr ''debug''), (''logFile'', JStr ''x.log'')],
      Some (JObj [(''logLevel'', JStr ''debug''), (''logFile'', JStr ''x.log'')])) \<and>
   loadConfig toy_parse (Content ''{}'') None = (DEFAULT_CONFIG, Some DEFAULT_CONFIG) \<and>
   loadConfig toy_parse (Content ''{}'')
     (clearConfigCache (Some (JObj [(''logLevel'', JStr ''debug''), (''logFile'', JStr ''x.log'')]))) =
     (DEFAULT_CONFIG, Some DEFAULT_CONFIG)"
proof -
  let ?valid = "Content ''{logLevel: debug, logFile: x.log}''"
  let ?parsed = "JObj [(''logLevel'', JStr ''debug''), (''logFile'', JStr ''x.log'')]"
  have first: "loadConfig toy_parse ?valid None = (?parsed, Some ?parsed)"
    by (simp add: loadConfig_def readConfig_def toy_parse_def get_field_def truthy_def)
  have fails: "Content ''{}'' = Absent \<or> Content ''{}'' = ExistsFails \<or> Content ''{}'' = ReadFails \<or>
     (\<exists>t. Content ''{}'' = Content t \<and>
        (toy_parse t = None \<or>
         (\<exists>config. toy_parse t = Some config \<and>
            (config = JNull \<or>
             (\<exists>logLevel logFile. get_field config ''logLevel'' = Inr logLevel \<and>
                 get_field config ''logFile'' = Inr logFile \<and>
                 (\<not> truthy logLevel \<or> \<not> truthy logFile))))))"
    by (simp add: toy_parse_def get_field_def truthy_def)
  from loadConfig_total_and_cached [of toy_parse ?valid "Content ''{}''", THEN conjunct1] first
  have cached: "loadConfig toy_parse (Content ''{}'') (Some ?parsed) = (?parsed, Some ?parsed)"
    and cleared: "loadConfig toy_parse (Content ''{}'') (clearConfigCache (Some ?parsed)) =
      loadConfig toy_parse (Content ''{}'') None"
    by auto
  from loadConfig_total_and_cached [of toy_parse "Content ''{}''" "Content ''{}''",
      THEN conjunct2, THEN conjunct1] fails
  have "loadConfig toy_parse (Content ''{}'') None = (DEFAULT_CONFIG, Some DEFAULT_CONFIG)"
    by (rule mp)
  with first cached cleared show ?thesis by simp
qed

end
